theory Spec2Isabelle
  imports Main "HOL-Library.Sublist"
begin

section \<open>The logging facade of go-utils (package logger)\<close>

text \<open>
  The development embeds \<^verbatim>\<open>logger/logger.go\<close>. Go pointers are addresses into explicit
  stores (one for \<^verbatim>\<open>Config\<close> objects, one for \<^verbatim>\<open>Logger\<close> objects), because the code
  keeps the caller's \<^verbatim>\<open>*Config\<close> and shares \<^verbatim>\<open>*Logger\<close> through a package variable.
  A nil pointer is \<open>None\<close>. A call runs without interruption and the mutex of
  \<^verbatim>\<open>Logger\<close> is not represented; \<^verbatim>\<open>Default\<close> is modelled a second time step by step, for
  runs in which another goroutine acts between its steps.
\<close>

subsection \<open>Data\<close>

type_synonym addr = nat

text \<open>\<^verbatim>\<open>type Config struct\<close>. Go's \<^verbatim>\<open>int\<close> fields are only compared with 0 and copied.\<close>

record Config =
  Level :: string
  FileName :: string
  MaxSize :: int
  MaxAge :: int
  MaxBackups :: int
  Compress :: bool
  TimeZone :: string

subsection \<open>The parts of zap, lumberjack and the standard library that the code calls\<close>

text \<open>
  \<^verbatim>\<open>go.mod\<close> pins \<^verbatim>\<open>go.uber.org/zap v1.27.0\<close>; the library is not part of the
  repository. The definitions of this subsection follow the library: the severity
  scale of \<^verbatim>\<open>zapcore.Level\<close> (Debug = -1 up to Fatal = 5), the text parser
  \<^verbatim>\<open>Level.UnmarshalText\<close> (exact match first, then the lower-cased text; the empty text
  is \<^verbatim>\<open>info\<close>), and the level check \<^verbatim>\<open>lvl >= current\<close> of a core.
\<close>

datatype zap_Level =
  DebugLevel | InfoLevel | WarnLevel | ErrorLevel | DPanicLevel | PanicLevel | FatalLevel

fun level_num :: "zap_Level \<Rightarrow> int" where
  "level_num DebugLevel = -1"
| "level_num InfoLevel = 0"
| "level_num WarnLevel = 1"
| "level_num ErrorLevel = 2"
| "level_num DPanicLevel = 3"
| "level_num PanicLevel = 4"
| "level_num FatalLevel = 5"

text \<open>\<^verbatim>\<open>LevelEnabler.Enabled\<close>: \<^verbatim>\<open>lvl >= l\<close>.\<close>

definition Enabled :: "zap_Level \<Rightarrow> zap_Level \<Rightarrow> bool" where
  "Enabled l lvl = (level_num l \<le> level_num lvl)"

datatype error = UnrecognizedLevel string

text \<open>The switch of \<^verbatim>\<open>Level.unmarshalText\<close>, case by case.\<close>

definition unmarshalText :: "string \<Rightarrow> zap_Level option" where
  "unmarshalText text =
     (if text = ''debug'' \<or> text = ''DEBUG'' then Some DebugLevel
      else if text = ''info'' \<or> text = ''INFO'' \<or> text = '''' then Some InfoLevel
      else if text = ''warn'' \<or> text = ''WARN'' then Some WarnLevel
      else if text = ''error'' \<or> text = ''ERROR'' then Some ErrorLevel
      else if text = ''dpanic'' \<or> text = ''DPANIC'' then Some DPanicLevel
      else if text = ''panic'' \<or> text = ''PANIC'' then Some PanicLevel
      else if text = ''fatal'' \<or> text = ''FATAL'' then Some FatalLevel
      else None)"

text \<open>
  Library and host functions that are parameters of the model: \<^verbatim>\<open>bytes.ToLower\<close> (the
  Unicode lower-casing that zap's parser applies), \<^verbatim>\<open>time.LoadLocation\<close> (it depends on
  the zone database; \<open>None\<close> is its error), \<^verbatim>\<open>filepath.Dir\<close>, and whether
  \<^verbatim>\<open>os.MkdirAll\<close> succeeds on a directory.
\<close>

datatype Location = Local | Zone string

record Env =
  ToLower :: "string \<Rightarrow> string"
  LoadLocation :: "string \<Rightarrow> Location option"
  Dir :: "string \<Rightarrow> string"
  MkdirAll :: "string \<Rightarrow> bool"

text \<open>\<^verbatim>\<open>Level.UnmarshalText\<close>: the text as it is, then the lower-cased text, else the error.\<close>

definition UnmarshalText :: "Env \<Rightarrow> string \<Rightarrow> error + zap_Level" where
  "UnmarshalText env text =
     (case unmarshalText text of
        Some l \<Rightarrow> Inr l
      | None \<Rightarrow>
          (case unmarshalText (ToLower env text) of
             Some l \<Rightarrow> Inr l
           | None \<Rightarrow> Inl (UnrecognizedLevel text)))"

text \<open>
  A \<^verbatim>\<open>zap.Logger\<close> is described by what \<^verbatim>\<open>init\<close> builds it from: the encoder (with
  the zone of its time encoder), the sinks of the multi write syncer, and the level
  enabler. \<^verbatim>\<open>init\<close> hands \<^verbatim>\<open>l.level\<close> itself to the core, so the enabler
  \<open>SharedLevel\<close> reads the level field of the owning \<^verbatim>\<open>Logger\<close>.
\<close>

datatype Sink = Stdout | Stderr | Lumberjack string int int int bool

datatype Encoder = JSONEncoder Location | ConsoleEncoder

datatype Enabler = SharedLevel | FixedLevel zap_Level

record zap_Logger =
  enc :: Encoder
  out :: "Sink list"
  enab :: Enabler

text \<open>\<^verbatim>\<open>zap.NewDevelopment()\<close>: console encoding to standard error at debug level.\<close>

definition NewDevelopment :: "zap_Logger option" where
  "NewDevelopment = Some \<lparr>enc = ConsoleEncoder, out = [Stderr], enab = FixedLevel DebugLevel\<rparr>"

datatype FieldType = BoolType | Int64Type | StringType | ErrorType

record Field =
  Key :: string
  Type :: FieldType
  Integer :: int
  String :: string

text \<open>\<^verbatim>\<open>zap.String(key, val)\<close>.\<close>

definition zap_String :: "string \<Rightarrow> string \<Rightarrow> Field" where
  "zap_String key val = \<lparr>Key = key, Type = StringType, Integer = 0, String = val\<rparr>"

text \<open>What a sink receives: the severity, the message and the fields of one record.\<close>

record Entry =
  severity :: zap_Level
  message :: string
  entry_fields :: "Field list"

subsection \<open>Program state\<close>

text \<open>A nil pointer dereference is the one panic of the package's own code.\<close>

datatype panic = NilPointerDereference

text \<open>
  \<^verbatim>\<open>type Logger struct\<close>, without the mutex. Both pointers may be nil, as they are in a
  zero-valued \<^verbatim>\<open>Logger\<close>; the zero \<^verbatim>\<open>AtomicLevel\<close> is the info level once it is set up.
\<close>

record Logger =
  logger :: "zap_Logger option"
  config :: "addr option"
  level :: zap_Level

text \<open>
  The stores, the package variables \<^verbatim>\<open>globalLogger\<close> and \<^verbatim>\<open>once\<close>, and the effects
  on the outside: the directories \<^verbatim>\<open>os.MkdirAll\<close> was called with, each with the
  outcome that the code drops, the records handed to each sink, and whether the process
  has exited. \<open>nextConfig\<close> and \<open>nextLogger\<close> are the allocation frontiers.
\<close>

record State =
  configs :: "addr \<Rightarrow> Config"
  nextConfig :: addr
  loggers :: "addr \<Rightarrow> Logger"
  nextLogger :: addr
  globalLogger :: "addr option"
  once :: bool
  mkdirs :: "(string \<times> bool) list"
  writes :: "(Sink \<times> Entry) list"
  exited :: bool

text \<open>\<^verbatim>\<open>var defaultConfig = &Config{...}\<close>: the pointer is address 0 and is never reassigned.\<close>

definition defaultConfig :: addr where
  "defaultConfig = 0"

definition defaultConfig_literal :: Config where
  "defaultConfig_literal =
     \<lparr>Level = ''info'', FileName = ''./logs/app.log'', MaxSize = 100, MaxAge = 7,
      MaxBackups = 10, Compress = True, TimeZone = ''Asia/Shanghai''\<rparr>"

definition zeroConfig :: Config where
  "zeroConfig =
     \<lparr>Level = '''', FileName = '''', MaxSize = 0, MaxAge = 0, MaxBackups = 0,
      Compress = False, TimeZone = ''''\<rparr>"

definition zeroLogger :: Logger where
  "zeroLogger = \<lparr>logger = None, config = None, level = InfoLevel\<rparr>"

text \<open>The state after package initialisation.\<close>

definition start :: State where
  "start =
     \<lparr>configs = (\<lambda>_. zeroConfig)(defaultConfig := defaultConfig_literal), nextConfig = 1,
      loggers = (\<lambda>_. zeroLogger), nextLogger = 0, globalLogger = None, once = False,
      mkdirs = [], writes = [], exited = False\<rparr>"

text \<open>A caller's \<^verbatim>\<open>&Config{...}\<close>: a fresh object holding the given value.\<close>

definition newConfig :: "Config \<Rightarrow> State \<Rightarrow> addr \<times> State" where
  "newConfig v s =
     (nextConfig s, s\<lparr>configs := (configs s)(nextConfig s := v), nextConfig := Suc (nextConfig s)\<rparr>)"

text \<open>An assignment through a \<^verbatim>\<open>*Config\<close>: \<^verbatim>\<open>c.f = ...\<close>.\<close>

definition store :: "addr \<Rightarrow> (Config \<Rightarrow> Config) \<Rightarrow> State \<Rightarrow> State" where
  "store c f s = s\<lparr>configs := (configs s)(c := f (configs s c))\<rparr>"

subsection \<open>Construction\<close>

text \<open>
  The seven default-filling statements of \<^verbatim>\<open>New\<close>, one definition for each
  \<^verbatim>\<open>if\<close>, each reading \<^verbatim>\<open>defaultConfig\<close> from the store when it runs.
\<close>

definition fill_Level :: "addr \<Rightarrow> State \<Rightarrow> State" where
  "fill_Level c s =
     (if Level (configs s c) = ''''
      then store c (\<lambda>x. x\<lparr>Level := Level (configs s defaultConfig)\<rparr>) s else s)"

definition fill_FileName :: "addr \<Rightarrow> State \<Rightarrow> State" where
  "fill_FileName c s =
     (if FileName (configs s c) = ''''
      then store c (\<lambda>x. x\<lparr>FileName := FileName (configs s defaultConfig)\<rparr>) s else s)"

definition fill_MaxSize :: "addr \<Rightarrow> State \<Rightarrow> State" where
  "fill_MaxSize c s =
     (if MaxSize (configs s c) = 0
      then store c (\<lambda>x. x\<lparr>MaxSize := MaxSize (configs s defaultConfig)\<rparr>) s else s)"

definition fill_MaxAge :: "addr \<Rightarrow> State \<Rightarrow> State" where
  "fill_MaxAge c s =
     (if MaxAge (configs s c) = 0
      then store c (\<lambda>x. x\<lparr>MaxAge := MaxAge (configs s defaultConfig)\<rparr>) s else s)"

definition fill_MaxBackups :: "addr \<Rightarrow> State \<Rightarrow> State" where
  "fill_MaxBackups c s =
     (if MaxBackups (configs s c) = 0
      then store c (\<lambda>x. x\<lparr>MaxBackups := MaxBackups (configs s defaultConfig)\<rparr>) s else s)"

definition fill_Compress :: "addr \<Rightarrow> State \<Rightarrow> State" where
  "fill_Compress c s =
     (if \<not> Compress (configs s c)
      then store c (\<lambda>x. x\<lparr>Compress := Compress (configs s defaultConfig)\<rparr>) s else s)"

definition fill_TimeZone :: "addr \<Rightarrow> State \<Rightarrow> State" where
  "fill_TimeZone c s =
     (if TimeZone (configs s c) = ''''
      then store c (\<lambda>x. x\<lparr>TimeZone := TimeZone (configs s defaultConfig)\<rparr>) s else s)"

definition fill :: "addr \<Rightarrow> State \<Rightarrow> State" where
  "fill c s =
     fill_TimeZone c (fill_Compress c (fill_MaxBackups c (fill_MaxAge c
       (fill_MaxSize c (fill_FileName c (fill_Level c s))))))"

text \<open>
  \<^verbatim>\<open>func (l *Logger) init() error\<close>. The first statement that touches the logger reads
  \<^verbatim>\<open>l.config.TimeZone\<close>, which panics on a nil \<^verbatim>\<open>config\<close>. The zone falls back to
  \<^verbatim>\<open>time.Local\<close>, the result of \<^verbatim>\<open>os.MkdirAll\<close> is dropped, lumberjack opens its file at
  the first write, the level falls back to \<^verbatim>\<open>zap.InfoLevel\<close>, and the only return
  statement returns nil.
\<close>

definition init :: "Env \<Rightarrow> addr \<Rightarrow> State \<Rightarrow> panic + (error option \<times> State)" where
  "init env l s =
     (case config (loggers s l) of
        None \<Rightarrow> Inl NilPointerDereference
      | Some c \<Rightarrow>
          (let cfg = configs s c;
               loc = (case LoadLocation env (TimeZone cfg) of None \<Rightarrow> Local | Some z \<Rightarrow> z);
               dir = Dir env (FileName cfg);
               s1 = (if dir \<noteq> ''.'' \<and> dir \<noteq> ''''
                     then s\<lparr>mkdirs := mkdirs s @ [(dir, MkdirAll env dir)]\<rparr> else s);
               writer = Lumberjack (FileName cfg) (MaxSize cfg) (MaxAge cfg) (MaxBackups cfg)
                          (Compress cfg);
               lv = (case UnmarshalText env (Level cfg) of Inl err \<Rightarrow> InfoLevel | Inr v \<Rightarrow> v);
               core = \<lparr>enc = JSONEncoder loc, out = [Stdout, writer], enab = SharedLevel\<rparr>
           in Inr (None,
                   s1\<lparr>loggers := (loggers s1)(l := (loggers s1 l)\<lparr>logger := Some core, level := lv\<rparr>)\<rparr>)))"

text \<open>\<^verbatim>\<open>func New(config *Config) *Logger\<close>.\<close>

definition New :: "Env \<Rightarrow> addr option \<Rightarrow> State \<Rightarrow> panic + (addr \<times> State)" where
  "New env config0 s0 =
     (let (c, s1) = (case config0 of
                       None \<Rightarrow> newConfig (configs s0 defaultConfig) s0
                     | Some a \<Rightarrow> (a, s0));
          s2 = fill c s1;
          l = nextLogger s2;
          s3 = s2\<lparr>loggers := (loggers s2)(l := \<lparr>logger = None, config = Some c, level = InfoLevel\<rparr>),
                  nextLogger := Suc l\<rparr>
      in (case init env l s3 of
            Inl p \<Rightarrow> Inl p
          | Inr (err, s4) \<Rightarrow>
              (case err of
                 Some e \<Rightarrow>
                   Inr (l, s4\<lparr>loggers := (loggers s4)(l := (loggers s4 l)\<lparr>logger := NewDevelopment\<rparr>)\<rparr>)
               | None \<Rightarrow> Inr (l, s4))))"

subsection \<open>Level changes and configuration reads\<close>

text \<open>
  \<^verbatim>\<open>func (l *Logger) SetLevel(level string) error\<close>. The parsed level is stored first;
  the assignment \<^verbatim>\<open>l.config.Level = level\<close> then panics on a nil \<^verbatim>\<open>config\<close>. The result
  is the outcome together with the state the call leaves behind.
\<close>

definition SetLevel :: "Env \<Rightarrow> addr \<Rightarrow> string \<Rightarrow> State \<Rightarrow> (panic + error option) \<times> State" where
  "SetLevel env l lvl s =
     (case UnmarshalText env lvl of
        Inl err \<Rightarrow> (Inr (Some err), s)
      | Inr v \<Rightarrow>
          (let s1 = s\<lparr>loggers := (loggers s)(l := (loggers s l)\<lparr>level := v\<rparr>)\<rparr>
           in (case config (loggers s1 l) of
                 None \<Rightarrow> (Inl NilPointerDereference, s1)
               | Some c \<Rightarrow> (Inr None, store c (\<lambda>x. x\<lparr>Level := lvl\<rparr>) s1))))"

text \<open>
  \<^verbatim>\<open>func (l *Logger) GetConfig() *Config\<close>: a new object holding a copy; \<^verbatim>\<open>*l.config\<close>
  panics on a nil \<^verbatim>\<open>config\<close>.
\<close>

definition GetConfig :: "addr \<Rightarrow> State \<Rightarrow> panic + (addr \<times> State)" where
  "GetConfig l s =
     (case config (loggers s l) of
        None \<Rightarrow> Inl NilPointerDereference
      | Some c \<Rightarrow> Inr (newConfig (configs s c) s))"

subsection \<open>The process singleton\<close>

text \<open>
  \<^verbatim>\<open>func Default() *Logger\<close>, run without interruption. \<^verbatim>\<open>once.Do(f)\<close> runs \<open>f\<close> when the
  flag is unset and sets the flag when \<open>f\<close> has returned; the function passed here
  constructs from the \<^verbatim>\<open>defaultConfig\<close> pointer itself.
\<close>

definition Default :: "Env \<Rightarrow> State \<Rightarrow> panic + (addr option \<times> State)" where
  "Default env s =
     (case globalLogger s of
        Some g \<Rightarrow> Inr (Some g, s)
      | None \<Rightarrow>
          (if once s then Inr (globalLogger s, s)
           else if globalLogger s = None
             then (case New env (Some defaultConfig) s of
                     Inl p \<Rightarrow> Inl p
                   | Inr (l, s') \<Rightarrow> Inr (Some l, s'\<lparr>globalLogger := Some l, once := True\<rparr>))
             else Inr (globalLogger s, s\<lparr>once := True\<rparr>)))"

text \<open>\<^verbatim>\<open>func SetGlobalConfig(config *Config)\<close>, run without interruption.\<close>

definition SetGlobalConfig :: "Env \<Rightarrow> addr option \<Rightarrow> State \<Rightarrow> panic + State" where
  "SetGlobalConfig env config0 s =
     (case New env config0 s of
        Inl p \<Rightarrow> Inl p
      | Inr (l, s') \<Rightarrow> Inr (s'\<lparr>globalLogger := Some l\<rparr>))"

text \<open>
  \<^verbatim>\<open>Default\<close> one shared-memory access at a time, for runs in which another goroutine
  acts in between. The positions are the lines of \<^verbatim>\<open>logger.go\<close>: the test of line 53,
  the flag test of \<^verbatim>\<open>once.Do\<close> (line 56), the test of line 57, the call of \<^verbatim>\<open>New\<close> and
  the assignment of line 58, the setting of the flag when the function of \<^verbatim>\<open>once.Do\<close>
  has returned, and the read of line 61. The mutex of \<^verbatim>\<open>sync.Once\<close> keeps other callers
  of \<^verbatim>\<open>Default\<close> out of lines 57 and 58; \<^verbatim>\<open>SetGlobalConfig\<close> takes no lock.
\<close>

datatype Default_pc =
  L53 | L56 | L57 | L58_New | L58_assign addr | Once_done | L61 | Returned "addr option"

definition Default_step :: "Env \<Rightarrow> Default_pc \<Rightarrow> State \<Rightarrow> panic + (Default_pc \<times> State)" where
  "Default_step env pc s =
     (case pc of
        L53 \<Rightarrow> (case globalLogger s of Some g \<Rightarrow> Inr (Returned (Some g), s) | None \<Rightarrow> Inr (L56, s))
      | L56 \<Rightarrow> (if once s then Inr (L61, s) else Inr (L57, s))
      | L57 \<Rightarrow> (if globalLogger s = None then Inr (L58_New, s) else Inr (Once_done, s))
      | L58_New \<Rightarrow>
          (case New env (Some defaultConfig) s of
             Inl p \<Rightarrow> Inl p
           | Inr (l, s') \<Rightarrow> Inr (L58_assign l, s'))
      | L58_assign l \<Rightarrow> Inr (Once_done, s\<lparr>globalLogger := Some l\<rparr>)
      | Once_done \<Rightarrow> Inr (L61, s\<lparr>once := True\<rparr>)
      | L61 \<Rightarrow> Inr (Returned (globalLogger s), s)
      | Returned r \<Rightarrow> Inr (Returned r, s))"

text \<open>The given number of consecutive steps of one call.\<close>

primrec Default_steps :: "nat \<Rightarrow> Env \<Rightarrow> Default_pc \<Rightarrow> State \<Rightarrow> panic + (Default_pc \<times> State)" where
  "Default_steps 0 env pc s = Inr (pc, s)"
| "Default_steps (Suc n) env pc s =
     (case Default_step env pc s of
        Inl p \<Rightarrow> Inl p
      | Inr (pc', s') \<Rightarrow> Default_steps n env pc' s')"

subsection \<open>Trace enrichment and emission\<close>

text \<open>
  A \<^verbatim>\<open>context.Context\<close> is read only through \<^verbatim>\<open>ctx.Value("traceId")\<close>: it is a lookup
  from string keys to interface values of an arbitrary type \<open>'v\<close>; \<open>None\<close> is the nil
  interface. \<^verbatim>\<open>fmt.Sprint\<close> on one value and the message formatting of zap's sugared
  logger are parameters.
\<close>

type_synonym 'v Context = "string \<Rightarrow> 'v option"

record 'v Fmt =
  Sprint :: "'v \<Rightarrow> string"
  getMessage :: "string \<Rightarrow> 'v list \<Rightarrow> string"

text \<open>\<^verbatim>\<open>func (l *Logger) addTraceID(ctx context.Context, fields []zap.Field) []zap.Field\<close>.\<close>

definition addTraceID :: "'v Fmt \<Rightarrow> 'v Context option \<Rightarrow> Field list \<Rightarrow> Field list" where
  "addTraceID fmt ctx flds =
     (case ctx of
        None \<Rightarrow> flds
      | Some c \<Rightarrow>
          (case c ''traceId'' of
             None \<Rightarrow> flds
           | Some traceId \<Rightarrow> flds @ [zap_String ''traceId'' (Sprint fmt traceId)]))"

text \<open>
  One call of \<^verbatim>\<open>l.logger.Info\<close> and its siblings on the zap logger of \<open>l\<close>: a nil
  \<^verbatim>\<open>*zap.Logger\<close> panics; otherwise the record goes to every sink of the core when the
  core's enabler admits the severity, and a record of fatal severity ends the process
  after the write. A failed write of a sink is not reported to the caller by zap, so
  \<open>writes\<close> lists the records handed to the sinks. The facade calls zap at the debug,
  info, warn, error and fatal severities only.
\<close>

definition current_level :: "Logger \<Rightarrow> zap_Logger \<Rightarrow> zap_Level" where
  "current_level L z = (case enab z of SharedLevel \<Rightarrow> level L | FixedLevel v \<Rightarrow> v)"

text \<open>The multi write syncer hands one encoded record to each of its sinks, in order.\<close>

definition fan_out :: "zap_Logger \<Rightarrow> Entry \<Rightarrow> (Sink \<times> Entry) list" where
  "fan_out z e = map (\<lambda>k. (k, e)) (out z)"

definition zap_log :: "zap_Level \<Rightarrow> addr \<Rightarrow> string \<Rightarrow> Field list \<Rightarrow> State \<Rightarrow> panic + State" where
  "zap_log lvl l m flds s =
     (case logger (loggers s l) of
        None \<Rightarrow> Inl NilPointerDereference
      | Some z \<Rightarrow>
          (let s1 = (if Enabled (current_level (loggers s l) z) lvl
                     then s\<lparr>writes := writes s @
                            fan_out z \<lparr>severity = lvl, message = m, entry_fields = flds\<rparr>\<rparr>
                     else s)
           in Inr (if lvl = FatalLevel then s1\<lparr>exited := True\<rparr> else s1)))"

text \<open>The structured methods: enrich, then log at the method's severity.\<close>

definition Info :: "'v Fmt \<Rightarrow> addr \<Rightarrow> 'v Context option \<Rightarrow> string \<Rightarrow> Field list \<Rightarrow> State \<Rightarrow> panic + State" where
  "Info fmt l ctx m flds s = zap_log InfoLevel l m (addTraceID fmt ctx flds) s"

definition Error :: "'v Fmt \<Rightarrow> addr \<Rightarrow> 'v Context option \<Rightarrow> string \<Rightarrow> Field list \<Rightarrow> State \<Rightarrow> panic + State" where
  "Error fmt l ctx m flds s = zap_log ErrorLevel l m (addTraceID fmt ctx flds) s"

definition Debug :: "'v Fmt \<Rightarrow> addr \<Rightarrow> 'v Context option \<Rightarrow> string \<Rightarrow> Field list \<Rightarrow> State \<Rightarrow> panic + State" where
  "Debug fmt l ctx m flds s = zap_log DebugLevel l m (addTraceID fmt ctx flds) s"

definition Warn :: "'v Fmt \<Rightarrow> addr \<Rightarrow> 'v Context option \<Rightarrow> string \<Rightarrow> Field list \<Rightarrow> State \<Rightarrow> panic + State" where
  "Warn fmt l ctx m flds s = zap_log WarnLevel l m (addTraceID fmt ctx flds) s"

definition Fatal :: "'v Fmt \<Rightarrow> addr \<Rightarrow> 'v Context option \<Rightarrow> string \<Rightarrow> Field list \<Rightarrow> State \<Rightarrow> panic + State" where
  "Fatal fmt l ctx m flds s = zap_log FatalLevel l m (addTraceID fmt ctx flds) s"

text \<open>
  The formatted methods: \<^verbatim>\<open>sugar.With("traceId", fmt.Sprint(traceId))\<close> puts the trace
  field into the logger's context, and the message is formatted from the arguments.
\<close>

definition sugar_fields :: "'v Fmt \<Rightarrow> 'v Context option \<Rightarrow> Field list" where
  "sugar_fields fmt ctx =
     (case ctx of
        None \<Rightarrow> []
      | Some c \<Rightarrow>
          (case c ''traceId'' of
             None \<Rightarrow> []
           | Some traceId \<Rightarrow> [zap_String ''traceId'' (Sprint fmt traceId)]))"

definition Infof :: "'v Fmt \<Rightarrow> addr \<Rightarrow> 'v Context option \<Rightarrow> string \<Rightarrow> 'v list \<Rightarrow> State \<Rightarrow> panic + State" where
  "Infof fmt l ctx m args s = zap_log InfoLevel l (getMessage fmt m args) (sugar_fields fmt ctx) s"

definition Errorf :: "'v Fmt \<Rightarrow> addr \<Rightarrow> 'v Context option \<Rightarrow> string \<Rightarrow> 'v list \<Rightarrow> State \<Rightarrow> panic + State" where
  "Errorf fmt l ctx m args s = zap_log ErrorLevel l (getMessage fmt m args) (sugar_fields fmt ctx) s"

definition Debugf :: "'v Fmt \<Rightarrow> addr \<Rightarrow> 'v Context option \<Rightarrow> string \<Rightarrow> 'v list \<Rightarrow> State \<Rightarrow> panic + State" where
  "Debugf fmt l ctx m args s = zap_log DebugLevel l (getMessage fmt m args) (sugar_fields fmt ctx) s"

definition Warnf :: "'v Fmt \<Rightarrow> addr \<Rightarrow> 'v Context option \<Rightarrow> string \<Rightarrow> 'v list \<Rightarrow> State \<Rightarrow> panic + State" where
  "Warnf fmt l ctx m args s = zap_log WarnLevel l (getMessage fmt m args) (sugar_fields fmt ctx) s"

subsection \<open>Flushing\<close>

text \<open>\<^verbatim>\<open>strings.Contains(s, substr)\<close>.\<close>

primrec Contains :: "string \<Rightarrow> string \<Rightarrow> bool" where
  "Contains [] substr = (substr = [])"
| "Contains (c # s) substr = (prefix substr (c # s) \<or> Contains s substr)"

text \<open>
  An error returned by \<^verbatim>\<open>l.logger.Sync()\<close> is known to \<^verbatim>\<open>Sync\<close> by its message
  \<^verbatim>\<open>err.Error()\<close>. What the flush of the sinks returns depends on the platform and
  is an argument of the model.
\<close>

datatype sync_error = SyncError (error_text: string)

text \<open>\<^verbatim>\<open>func (l *Logger) Sync() error\<close>.\<close>

definition Sync :: "addr \<Rightarrow> sync_error option \<Rightarrow> State \<Rightarrow> panic + sync_error option" where
  "Sync l flush s =
     (case logger (loggers s l) of
        None \<Rightarrow> Inl NilPointerDereference
      | Some z \<Rightarrow>
          (case flush of
             Some err \<Rightarrow>
               (let m = error_text err
                in if Contains m ''bad file descriptor'' \<or> Contains m ''/dev/stdout'' \<or>
                      Contains m ''invalid argument''
                   then Inr None
                   else Inr (Some err))
           | None \<Rightarrow> Inr None))"

subsection \<open>Derived descriptions used in the statements\<close>

text \<open>
  The record value that the seven filling statements leave behind, as a function of the
  record \<open>x\<close> before and of the default record \<open>d\<close> (lemma \<open>fill_configs\<close> relates it to
  \<open>fill\<close>).
\<close>

definition filled :: "Config \<Rightarrow> Config \<Rightarrow> Config" where
  "filled x d = \<lparr>Level = (if Level x = [] then Level d else Level x),
      FileName = (if FileName x = [] then FileName d else FileName x),
      MaxSize = (if MaxSize x = 0 then MaxSize d else MaxSize x),
      MaxAge = (if MaxAge x = 0 then MaxAge d else MaxAge x),
      MaxBackups = (if MaxBackups x = 0 then MaxBackups d else MaxBackups x),
      Compress = (if \<not> Compress x then Compress d else Compress x),
      TimeZone = (if TimeZone x = [] then TimeZone d else TimeZone x)\<rparr>"

text \<open>
  The \<^verbatim>\<open>Logger\<close> object that \<^verbatim>\<open>init\<close> leaves for a configuration value \<open>cfg\<close> stored at
  \<open>c\<close> (lemma \<open>init_Some\<close> relates it to \<open>init\<close>).
\<close>

definition built :: "Env \<Rightarrow> Config \<Rightarrow> addr \<Rightarrow> Logger" where
  "built env cfg c =
     \<lparr>logger = Some \<lparr>enc = JSONEncoder (case LoadLocation env (TimeZone cfg) of None \<Rightarrow> Local | Some z \<Rightarrow> z),
                      out = [Stdout, Lumberjack (FileName cfg) (MaxSize cfg) (MaxAge cfg) (MaxBackups cfg) (Compress cfg)],
                      enab = SharedLevel\<rparr>,
      config = Some c,
      level = (case UnmarshalText env (Level cfg) of Inl err \<Rightarrow> InfoLevel | Inr v \<Rightarrow> v)\<rparr>"

text \<open>
  The state that \<^verbatim>\<open>New\<close> leaves (lemma \<open>New_returns\<close>: \<^verbatim>\<open>New\<close> does not panic, and its
  result is the old allocation frontier together with this state).
\<close>

definition New_state :: "Env \<Rightarrow> addr option \<Rightarrow> State \<Rightarrow> State" where
  "New_state env config0 s = (case New env config0 s of Inl p \<Rightarrow> s | Inr (l, s') \<Rightarrow> s')"

text \<open>
  An environment for concrete evaluations: lower-casing of the ASCII letters (what
  \<^verbatim>\<open>bytes.ToLower\<close> does on ASCII text), two known zones, and the directories of three
  paths.
\<close>

definition lower_byte :: "char \<Rightarrow> char" where
  "lower_byte c =
     (let n = (of_char c :: nat) in if 65 \<le> n \<and> n \<le> 90 then char_of (n + 32) else c)"

definition example_env :: Env where
  "example_env =
     \<lparr>ToLower = map lower_byte,
      LoadLocation = (\<lambda>n. if n = ''Asia/Shanghai'' \<or> n = ''UTC'' then Some (Zone n) else None),
      Dir = (\<lambda>p. if p = ''./logs/app.log'' then ''logs''
                 else if p = ''/proc/none/x.log'' then ''/proc/none''
                 else ''.''),
      MkdirAll = (\<lambda>d. d = ''logs'')\<rparr>"

text \<open>Formatting for concrete evaluations, with strings as the interface values.\<close>

definition example_fmt :: "string Fmt" where
  "example_fmt = \<lparr>Sprint = (\<lambda>v. v), getMessage = (\<lambda>m args. m @ concat args)\<rparr>"

text \<open>Caller records for concrete evaluations.\<close>

definition partial_config :: Config where
  "partial_config =
     \<lparr>Level = ''warn'', FileName = ''./test_logs/partial.log'', MaxSize = 0, MaxAge = 0,
      MaxBackups = 0, Compress = False, TimeZone = ''''\<rparr>"

definition bogus_config :: Config where
  "bogus_config =
     \<lparr>Level = ''bogus'', FileName = ''/proc/none/x.log'', MaxSize = 0, MaxAge = 0,
      MaxBackups = 0, Compress = False, TimeZone = ''Not/AZone''\<rparr>"

text \<open>
  A state for concrete evaluations: the caller allocates \<open>partial_config\<close> (at address 1)
  and constructs a logger from it (at address 0); its level is \<^verbatim>\<open>warn\<close>.
\<close>

definition warn_state :: State where
  "warn_state = New_state example_env (Some 1) (snd (newConfig partial_config start))"

text \<open>\<^verbatim>\<open>context.WithValue(context.Background(), "traceId", "test-trace-123")\<close>.\<close>

definition trace_ctx :: "string Context" where
  "trace_ctx = (\<lambda>k. if k = ''traceId'' then Some ''test-trace-123'' else None)"

text \<open>
  What one call handed to the sinks: the records it appended to \<open>writes\<close>, or \<open>None\<close>
  when the call panicked.
\<close>

definition sink_writes :: "State \<Rightarrow> panic + State \<Rightarrow> (Sink \<times> Entry) list option" where
  "sink_writes s r =
     (case r of Inl p \<Rightarrow> None | Inr s' \<Rightarrow> Some (drop (length (writes s)) (writes s')))"

text \<open>
  The states a program can reach through the package: from the state after package
  initialisation, by allocating a \<^verbatim>\<open>Config\<close>, by assigning through a \<^verbatim>\<open>*Config\<close> it holds
  (never the unexported \<^verbatim>\<open>defaultConfig\<close>), and by calling the exported functions and
  methods. A call that panics leaves the state it had reached.
\<close>

inductive reachable :: "State \<Rightarrow> bool" where
  r_start: "reachable start"
| r_alloc: "reachable s \<Longrightarrow> reachable (snd (newConfig v s))"
| r_assign: "reachable s \<Longrightarrow> c \<noteq> defaultConfig \<Longrightarrow> reachable (store c f s)"
| r_New: "reachable s \<Longrightarrow> New env config0 s = Inr (l, s') \<Longrightarrow> reachable s'"
| r_SetLevel: "reachable s \<Longrightarrow> reachable (snd (SetLevel env l name s))"
| r_GetConfig: "reachable s \<Longrightarrow> GetConfig l s = Inr (g, s') \<Longrightarrow> reachable s'"
| r_Default: "reachable s \<Longrightarrow> Default env s = Inr (r, s') \<Longrightarrow> reachable s'"
| r_SetGlobalConfig: "reachable s \<Longrightarrow> SetGlobalConfig env config0 s = Inr s' \<Longrightarrow> reachable s'"
| r_log: "reachable s \<Longrightarrow> zap_log lvl l m flds s = Inr s' \<Longrightarrow> reachable s'"

text \<open>
  \<open>built_by_New l s\<close>: the logger at \<open>l\<close> was returned by \<^verbatim>\<open>New\<close>, called with nil or with
  a record that had been allocated, and \<open>s\<close> is the state then or after any further
  allocations, assignments through \<^verbatim>\<open>*Config\<close> pointers and calls of the package.
\<close>

inductive built_by_New :: "addr \<Rightarrow> State \<Rightarrow> bool" where
  b_New_nil: "New env None s = Inr (l, s') \<Longrightarrow> built_by_New l s'"
| b_New_record: "c < nextConfig s \<Longrightarrow> New env (Some c) s = Inr (l, s') \<Longrightarrow> built_by_New l s'"
| b_alloc: "built_by_New l s \<Longrightarrow> built_by_New l (snd (newConfig v s))"
| b_assign: "built_by_New l s \<Longrightarrow> built_by_New l (store c f s)"
| b_New: "built_by_New l s \<Longrightarrow> New env config0 s = Inr (l', s') \<Longrightarrow> built_by_New l s'"
| b_SetLevel: "built_by_New l s \<Longrightarrow> built_by_New l (snd (SetLevel env l' name s))"
| b_GetConfig: "built_by_New l s \<Longrightarrow> GetConfig l' s = Inr (g, s') \<Longrightarrow> built_by_New l s'"
| b_Default: "built_by_New l s \<Longrightarrow> Default env s = Inr (r, s') \<Longrightarrow> built_by_New l s'"
| b_SetGlobalConfig:
    "built_by_New l s \<Longrightarrow> SetGlobalConfig env config0 s = Inr s' \<Longrightarrow> built_by_New l s'"
| b_log: "built_by_New l s \<Longrightarrow> zap_log lvl l' m flds s = Inr s' \<Longrightarrow> built_by_New l s'"

text \<open>
  What holds of a logger that \<^verbatim>\<open>New\<close> built, at any later time (lemma
  \<open>built_by_New_well_built\<close>): it lies below the allocation frontier, its configuration
  pointer is not nil and points to an allocated record, and its zap logger is installed
  with a core that reads the logger's own level.
\<close>

definition well_built :: "addr \<Rightarrow> State \<Rightarrow> bool" where
  "well_built l s =
     (l < nextLogger s \<and>
      (case config (loggers s l) of None \<Rightarrow> False | Some c \<Rightarrow> c < nextConfig s) \<and>
      (case logger (loggers s l) of None \<Rightarrow> False | Some z \<Rightarrow> enab z = SharedLevel))"

text \<open>
  A scenario: the caller allocates a record with level \<^verbatim>\<open>debug\<close> (address 1), constructs
  a logger from it (address 0), and afterwards assigns \<^verbatim>\<open>error\<close> to the \<^verbatim>\<open>Level\<close> field
  of its own record.
\<close>

definition debug_config :: Config where
  "debug_config =
     \<lparr>Level = ''debug'', FileName = ''./test_logs/config_test.log'', MaxSize = 100, MaxAge = 30,
      MaxBackups = 10, Compress = True, TimeZone = ''Asia/Shanghai''\<rparr>"

definition constructed :: State where
  "constructed = New_state example_env (Some 1) (snd (newConfig debug_config start))"

definition caller_assigned :: State where
  "caller_assigned = store 1 (\<lambda>x. x\<lparr>Level := ''error''\<rparr>) constructed"

text \<open>
  The declared values of \<^verbatim>\<open>defaultConfig\<close> other than \<^verbatim>\<open>Level\<close> are still in place, and
  the default record lies below the allocation frontier.
\<close>

definition default_intact :: "State \<Rightarrow> bool" where
  "default_intact s =
     (defaultConfig < nextConfig s \<and>
      FileName (configs s defaultConfig) = FileName defaultConfig_literal \<and>
      MaxSize (configs s defaultConfig) = MaxSize defaultConfig_literal \<and>
      MaxAge (configs s defaultConfig) = MaxAge defaultConfig_literal \<and>
      MaxBackups (configs s defaultConfig) = MaxBackups defaultConfig_literal \<and>
      Compress (configs s defaultConfig) = Compress defaultConfig_literal \<and>
      TimeZone (configs s defaultConfig) = TimeZone defaultConfig_literal)"

text \<open>
  A run of two goroutines from the state after package initialisation. Goroutine A
  calls \<^verbatim>\<open>Default\<close> and is interrupted inside the function of \<^verbatim>\<open>once.Do\<close>, after the test
  of line 57 and the call of \<^verbatim>\<open>New\<close>, before the assignment of line 58
  (\<open>race_A_paused\<close>). Goroutine B then runs \<^verbatim>\<open>SetGlobalConfig(nil)\<close> to its end
  (\<open>race_B_done\<close>). A then runs its remaining three steps (\<open>race_A_done\<close>).
\<close>

definition race_A_paused :: "panic + (Default_pc \<times> State)" where
  "race_A_paused = Default_steps 4 example_env L53 start"

definition race_B_done :: "panic + State" where
  "race_B_done =
     (case race_A_paused of
        Inl p \<Rightarrow> Inl p
      | Inr (pc, s) \<Rightarrow> SetGlobalConfig example_env None s)"

definition race_A_done :: "panic + (Default_pc \<times> State)" where
  "race_A_done =
     (case race_A_paused of
        Inl p \<Rightarrow> Inl p
      | Inr (pc, s) \<Rightarrow>
          (case race_B_done of
             Inl p \<Rightarrow> Inl p
           | Inr s' \<Rightarrow> Default_steps 3 example_env pc s'))"

section \<open>Properties\<close>

subsection \<open>Library facts\<close>

lemma ToLower_ascii_check: "ToLower example_env ''WaRn Z@[a'' = ''warn z@[a''"
  by code_simp

subsection \<open>Default filling and construction, step by step\<close>

lemma store_simps:
  "configs (store c f s) = (configs s)(c := f (configs s c))"
  "nextConfig (store c f s) = nextConfig s"
  "loggers (store c f s) = loggers s"
  "nextLogger (store c f s) = nextLogger s"
  "globalLogger (store c f s) = globalLogger s"
  "once (store c f s) = once s"
  "mkdirs (store c f s) = mkdirs s"
  "writes (store c f s) = writes s"
  "exited (store c f s) = exited s"
  by (simp_all add: store_def)

lemma fill_Level_frame:
  "nextConfig (fill_Level c s) = nextConfig s"
  "loggers (fill_Level c s) = loggers s"
  "nextLogger (fill_Level c s) = nextLogger s"
  "globalLogger (fill_Level c s) = globalLogger s"
  "once (fill_Level c s) = once s"
  "mkdirs (fill_Level c s) = mkdirs s"
  "writes (fill_Level c s) = writes s"
  "exited (fill_Level c s) = exited s"
  by (simp_all add: fill_Level_def store_simps)

lemma fill_Level_configs:
  "configs (fill_Level c s) = (configs s)(c := (configs s c)\<lparr>Level := (if Level (configs s c) = [] then Level (configs s defaultConfig) else Level (configs s c))\<rparr>)"
  by (simp add: fill_Level_def store_simps)

lemma fill_FileName_frame:
  "nextConfig (fill_FileName c s) = nextConfig s"
  "loggers (fill_FileName c s) = loggers s"
  "nextLogger (fill_FileName c s) = nextLogger s"
  "globalLogger (fill_FileName c s) = globalLogger s"
  "once (fill_FileName c s) = once s"
  "mkdirs (fill_FileName c s) = mkdirs s"
  "writes (fill_FileName c s) = writes s"
  "exited (fill_FileName c s) = exited s"
  by (simp_all add: fill_FileName_def store_simps)

lemma fill_FileName_configs:
  "configs (fill_FileName c s) = (configs s)(c := (configs s c)\<lparr>FileName := (if FileName (configs s c) = [] then FileName (configs s defaultConfig) else FileName (configs s c))\<rparr>)"
  by (simp add: fill_FileName_def store_simps)

lemma fill_MaxSize_frame:
  "nextConfig (fill_MaxSize c s) = nextConfig s"
  "loggers (fill_MaxSize c s) = loggers s"
  "nextLogger (fill_MaxSize c s) = nextLogger s"
  "globalLogger (fill_MaxSize c s) = globalLogger s"
  "once (fill_MaxSize c s) = once s"
  "mkdirs (fill_MaxSize c s) = mkdirs s"
  "writes (fill_MaxSize c s) = writes s"
  "exited (fill_MaxSize c s) = exited s"
  by (simp_all add: fill_MaxSize_def store_simps)

lemma fill_MaxSize_configs:
  "configs (fill_MaxSize c s) = (configs s)(c := (configs s c)\<lparr>MaxSize := (if MaxSize (configs s c) = 0 then MaxSize (configs s defaultConfig) else MaxSize (configs s c))\<rparr>)"
  by (simp add: fill_MaxSize_def store_simps)

lemma fill_MaxAge_frame:
  "nextConfig (fill_MaxAge c s) = nextConfig s"
  "loggers (fill_MaxAge c s) = loggers s"
  "nextLogger (fill_MaxAge c s) = nextLogger s"
  "globalLogger (fill_MaxAge c s) = globalLogger s"
  "once (fill_MaxAge c s) = once s"
  "mkdirs (fill_MaxAge c s) = mkdirs s"
  "writes (fill_MaxAge c s) = writes s"
  "exited (fill_MaxAge c s) = exited s"
  by (simp_all add: fill_MaxAge_def store_simps)

lemma fill_MaxAge_configs:
  "configs (fill_MaxAge c s) = (configs s)(c := (configs s c)\<lparr>MaxAge := (if MaxAge (configs s c) = 0 then MaxAge (configs s defaultConfig) else MaxAge (configs s c))\<rparr>)"
  by (simp add: fill_MaxAge_def store_simps)

lemma fill_MaxBackups_frame:
  "nextConfig (fill_MaxBackups c s) = nextConfig s"
  "loggers (fill_MaxBackups c s) = loggers s"
  "nextLogger (fill_MaxBackups c s) = nextLogger s"
  "globalLogger (fill_MaxBackups c s) = globalLogger s"
  "once (fill_MaxBackups c s) = once s"
  "mkdirs (fill_MaxBackups c s) = mkdirs s"
  "writes (fill_MaxBackups c s) = writes s"
  "exited (fill_MaxBackups c s) = exited s"
  by (simp_all add: fill_MaxBackups_def store_simps)

lemma fill_MaxBackups_configs:
  "configs (fill_MaxBackups c s) = (configs s)(c := (configs s c)\<lparr>MaxBackups := (if MaxBackups (configs s c) = 0 then MaxBackups (configs s defaultConfig) else MaxBackups (configs s c))\<rparr>)"
  by (simp add: fill_MaxBackups_def store_simps)

lemma fill_Compress_frame:
  "nextConfig (fill_Compress c s) = nextConfig s"
  "loggers (fill_Compress c s) = loggers s"
  "nextLogger (fill_Compress c s) = nextLogger s"
  "globalLogger (fill_Compress c s) = globalLogger s"
  "once (fill_Compress c s) = once s"
  "mkdirs (fill_Compress c s) = mkdirs s"
  "writes (fill_Compress c s) = writes s"
  "exited (fill_Compress c s) = exited s"
  by (simp_all add: fill_Compress_def store_simps)

lemma fill_Compress_configs:
  "configs (fill_Compress c s) = (configs s)(c := (configs s c)\<lparr>Compress := (if \<not> Compress (configs s c) then Compress (configs s defaultConfig) else Compress (configs s c))\<rparr>)"
  by (cases "configs s c") (auto simp: fill_Compress_def store_simps)

lemma fill_TimeZone_frame:
  "nextConfig (fill_TimeZone c s) = nextConfig s"
  "loggers (fill_TimeZone c s) = loggers s"
  "nextLogger (fill_TimeZone c s) = nextLogger s"
  "globalLogger (fill_TimeZone c s) = globalLogger s"
  "once (fill_TimeZone c s) = once s"
  "mkdirs (fill_TimeZone c s) = mkdirs s"
  "writes (fill_TimeZone c s) = writes s"
  "exited (fill_TimeZone c s) = exited s"
  by (simp_all add: fill_TimeZone_def store_simps)

lemma fill_TimeZone_configs:
  "configs (fill_TimeZone c s) = (configs s)(c := (configs s c)\<lparr>TimeZone := (if TimeZone (configs s c) = [] then TimeZone (configs s defaultConfig) else TimeZone (configs s c))\<rparr>)"
  by (simp add: fill_TimeZone_def store_simps)

lemmas fill_step_frame = fill_Level_frame fill_FileName_frame fill_MaxSize_frame fill_MaxAge_frame fill_MaxBackups_frame fill_Compress_frame fill_TimeZone_frame
lemmas fill_step_configs = fill_Level_configs fill_FileName_configs fill_MaxSize_configs fill_MaxAge_configs fill_MaxBackups_configs fill_Compress_configs fill_TimeZone_configs

lemma fill_frame:
  "nextConfig (fill c s) = nextConfig s"
  "loggers (fill c s) = loggers s"
  "nextLogger (fill c s) = nextLogger s"
  "globalLogger (fill c s) = globalLogger s"
  "once (fill c s) = once s"
  "mkdirs (fill c s) = mkdirs s"
  "writes (fill c s) = writes s"
  "exited (fill c s) = exited s"
  by (simp_all add: fill_def fill_step_frame)

lemma fill_configs:
  "configs (fill c s) = (configs s)(c := filled (configs s c) (configs s defaultConfig))"
proof (cases "c = defaultConfig")
  case True
  then show ?thesis
    by (cases "configs s defaultConfig") (simp add: fill_def fill_step_configs filled_def)
next
  case False
  then show ?thesis
    by (cases "configs s c") (simp add: fill_def fill_step_configs filled_def)
qed

lemma init_Some:
  assumes "config (loggers s l) = Some c"
  shows "\<exists>t. init env l s = Inr (None, t) \<and>
           configs t = configs s \<and> nextConfig t = nextConfig s \<and>
           loggers t = (loggers s)(l := built env (configs s c) c) \<and>
           nextLogger t = nextLogger s \<and> globalLogger t = globalLogger s \<and>
           once t = once s \<and> writes t = writes s \<and> exited t = exited s"
  using assms by (cases "loggers s l") (simp add: init_def Let_def built_def)

lemma init_never_errs: "init env l s \<noteq> Inr (Some e, t)"
  by (cases "config (loggers s l)") (simp_all add: init_def Let_def)

lemma init_panics_iff: "(\<exists>p. init env l s = Inl p) = (config (loggers s l) = None)"
  by (cases "config (loggers s l)") (simp_all add: init_def Let_def)

text \<open>\<^verbatim>\<open>New\<close> returns, and what it leaves, field by field.\<close>

lemma New_Some_returns: "New env (Some c) s = Inr (nextLogger s, New_state env (Some c) s)"
proof -
  define s3 where "s3 = (fill c s)\<lparr>loggers := (loggers (fill c s))
      (nextLogger s := \<lparr>logger = None, config = Some c, level = InfoLevel\<rparr>),
      nextLogger := Suc (nextLogger s)\<rparr>"
  have "config (loggers s3 (nextLogger s)) = Some c"
    by (simp add: s3_def)
  from init_Some [OF this] obtain t where "init env (nextLogger s) s3 = Inr (None, t)"
    by blast
  then have "New env (Some c) s = Inr (nextLogger s, t)"
    by (simp add: New_def Let_def fill_frame s3_def)
  then show ?thesis
    by (simp add: New_state_def)
qed

lemma New_Some_state:
  "configs (New_state env (Some c) s) = configs (fill c s)"
  "nextConfig (New_state env (Some c) s) = nextConfig s"
  "loggers (New_state env (Some c) s) =
     (loggers s)(nextLogger s := built env (configs (fill c s) c) c)"
  "nextLogger (New_state env (Some c) s) = Suc (nextLogger s)"
  "globalLogger (New_state env (Some c) s) = globalLogger s"
  "once (New_state env (Some c) s) = once s"
  "writes (New_state env (Some c) s) = writes s"
  "exited (New_state env (Some c) s) = exited s"
proof -
  define s3 where "s3 = (fill c s)\<lparr>loggers := (loggers (fill c s))
      (nextLogger s := \<lparr>logger = None, config = Some c, level = InfoLevel\<rparr>),
      nextLogger := Suc (nextLogger s)\<rparr>"
  have "config (loggers s3 (nextLogger s)) = Some c"
    by (simp add: s3_def)
  from init_Some [OF this] obtain t where t: "init env (nextLogger s) s3 = Inr (None, t)"
    "configs t = configs s3" "nextConfig t = nextConfig s3"
    "loggers t = (loggers s3)(nextLogger s := built env (configs s3 c) c)"
    "nextLogger t = nextLogger s3" "globalLogger t = globalLogger s3"
    "once t = once s3" "writes t = writes s3" "exited t = exited s3"
    by blast
  have "New env (Some c) s = Inr (nextLogger s, t)"
    using t(1) by (simp add: New_def Let_def fill_frame s3_def)
  then have e: "New_state env (Some c) s = t"
    by (simp add: New_state_def)
  show "configs (New_state env (Some c) s) = configs (fill c s)"
    "nextConfig (New_state env (Some c) s) = nextConfig s"
    "loggers (New_state env (Some c) s) =
       (loggers s)(nextLogger s := built env (configs (fill c s) c) c)"
    "nextLogger (New_state env (Some c) s) = Suc (nextLogger s)"
    "globalLogger (New_state env (Some c) s) = globalLogger s"
    "once (New_state env (Some c) s) = once s"
    "writes (New_state env (Some c) s) = writes s"
    "exited (New_state env (Some c) s) = exited s"
    unfolding e using t(2-9) by (simp_all add: s3_def fill_frame)
qed

lemma New_None:
  "New env None s = New env (Some (nextConfig s)) (snd (newConfig (configs s defaultConfig) s))"
  by (simp add: New_def newConfig_def)

lemma New_state_None:
  "New_state env None s =
     New_state env (Some (nextConfig s)) (snd (newConfig (configs s defaultConfig) s))"
proof -
  have "New env None s =
      Inr (nextLogger (snd (newConfig (configs s defaultConfig) s)),
           New_state env (Some (nextConfig s)) (snd (newConfig (configs s defaultConfig) s)))"
    by (simp only: New_None New_Some_returns)
  then show ?thesis
    by (simp add: New_state_def [of env None])
qed

lemma New_returns:
  "New env config0 s =
     Inr (case config0 of None \<Rightarrow> nextLogger s | Some c \<Rightarrow> nextLogger s, New_state env config0 s)"
proof (cases config0)
  case None
  then show ?thesis
    by (simp add: New_None New_state_None New_Some_returns newConfig_def)
next
  case (Some c)
  then show ?thesis
    by (simp add: New_Some_returns)
qed

lemma New_result_eq:
  assumes "New env config0 s = Inr (l, s')"
  shows "l = nextLogger s" and "s' = New_state env config0 s"
  using assms New_returns [of env config0 s] by (cases config0; simp)+

subsection \<open>What construction returns\<close>

lemma UnmarshalText_names:
  "UnmarshalText env ''debug'' = Inr DebugLevel"
  "UnmarshalText env ''info'' = Inr InfoLevel"
  "UnmarshalText env ''warn'' = Inr WarnLevel"
  "UnmarshalText env ''error'' = Inr ErrorLevel"
  "UnmarshalText env ''fatal'' = Inr FatalLevel"
  by (simp_all add: UnmarshalText_def unmarshalText_def)

lemma UnmarshalText_rejects:
  "UnmarshalText example_env ''bogus'' = Inl (UnrecognizedLevel ''bogus'')"
  "UnmarshalText example_env ''invalid'' = Inl (UnrecognizedLevel ''invalid'')"
  "UnmarshalText example_env ''not-a-level'' = Inl (UnrecognizedLevel ''not-a-level'')"
  by code_simp+

lemma New_config_addr:
  assumes "New env config0 s = Inr (l, s')"
  shows "config (loggers s' l) = Some (case config0 of None \<Rightarrow> nextConfig s | Some c \<Rightarrow> c)"
proof (cases config0)
  case None
  with New_result_eq [OF assms] show ?thesis
    by (simp add: New_state_None New_Some_state built_def newConfig_def)
next
  case (Some c)
  with New_result_eq [OF assms] show ?thesis
    by (simp add: New_Some_state built_def)
qed

lemma New_result:
  assumes "New env config0 s = Inr (l, s')" and "config (loggers s' l) = Some c"
  shows "loggers s' l = built env (configs s' c) c"
proof (cases config0)
  case None
  with New_config_addr [OF assms(1)] assms(2) have c: "c = nextConfig s"
    by simp
  from None New_result_eq [OF assms(1)] show ?thesis
    unfolding c by (simp add: New_state_None New_Some_state newConfig_def)
next
  case (Some a)
  with New_config_addr [OF assms(1)] assms(2) have c: "c = a"
    by simp
  from Some New_result_eq [OF assms(1)] show ?thesis
    unfolding c by (simp add: New_Some_state)
qed

text \<open>
  Claim C10. \<^verbatim>\<open>init\<close> never returns an error: for every environment, logger and state it
  returns nil, or panics when the logger has no configuration record (which is never
  the case for the logger that \<^verbatim>\<open>New\<close> passes). So the branch of \<^verbatim>\<open>New\<close> that installs
  the development logger is never taken: for every argument \<^verbatim>\<open>New\<close> returns, and the
  logger it returns carries the JSON core over standard output and the rotating file,
  gated by the logger's own level.
\<close>

theorem init_returns_nil:
  "(init env l s = Inl NilPointerDereference \<or> (\<exists>t. init env l s = Inr (None, t))) \<and>
   ((\<exists>p. init env l s = Inl p) = (config (loggers s l) = None)) \<and>
   (case New env config0 s of
      Inl p \<Rightarrow> False
    | Inr (l', s') \<Rightarrow>
        (case config (loggers s' l') of
           None \<Rightarrow> False
         | Some c \<Rightarrow>
             (let cfg = configs s' c in
              logger (loggers s' l') =
                Some \<lparr>enc = JSONEncoder (case LoadLocation env (TimeZone cfg) of None \<Rightarrow> Local | Some z \<Rightarrow> z),
                      out = [Stdout, Lumberjack (FileName cfg) (MaxSize cfg) (MaxAge cfg) (MaxBackups cfg) (Compress cfg)],
                      enab = SharedLevel\<rparr> \<and>
              logger (loggers s' l') \<noteq> NewDevelopment)))"
proof -
  have 1: "init env l s = Inl NilPointerDereference \<or> (\<exists>t. init env l s = Inr (None, t))"
  proof (cases "config (loggers s l)")
    case None
    then show ?thesis by (simp add: init_def)
  next
    case (Some c)
    from init_Some [OF this] show ?thesis by blast
  qed
  obtain l' s' where n: "New env config0 s = Inr (l', s')"
    using New_returns by blast
  obtain c where c: "config (loggers s' l') = Some c"
    using New_config_addr [OF n] by blast
  have "logger (loggers s' l') = logger (built env (configs s' c) c)"
    using New_result [OF n c] by simp
  then have 3: "case New env config0 s of
      Inl p \<Rightarrow> False
    | Inr (l', s') \<Rightarrow>
        (case config (loggers s' l') of
           None \<Rightarrow> False
         | Some c \<Rightarrow>
             (let cfg = configs s' c in
              logger (loggers s' l') =
                Some \<lparr>enc = JSONEncoder (case LoadLocation env (TimeZone cfg) of None \<Rightarrow> Local | Some z \<Rightarrow> z),
                      out = [Stdout, Lumberjack (FileName cfg) (MaxSize cfg) (MaxAge cfg) (MaxBackups cfg) (Compress cfg)],
                      enab = SharedLevel\<rparr> \<and>
              logger (loggers s' l') \<noteq> NewDevelopment))"
    by (simp add: n c Let_def built_def NewDevelopment_def)
  from 1 init_panics_iff [of env l s] 3 show ?thesis
    by (intro conjI)
qed

lemma GetConfig_Some:
  "config (loggers s l) = Some c \<Longrightarrow>
   GetConfig l s = Inr (nextConfig s, snd (newConfig (configs s c) s))"
  by (simp add: GetConfig_def newConfig_def)

lemma GetConfig_reads:
  assumes "GetConfig l s = Inr (g, s2)"
  shows "\<exists>c. config (loggers s l) = Some c \<and> configs s2 g = configs s c \<and> g = nextConfig s \<and>
             loggers s2 = loggers s \<and> nextConfig s2 = Suc (nextConfig s)"
  using assms by (cases "config (loggers s l)") (auto simp: GetConfig_def newConfig_def)

lemma New_Some_config:
  assumes "New env (Some c) s = Inr (l, s1)"
  shows "config (loggers s1 l) = Some c"
    and "configs s1 c = filled (configs s c) (configs s defaultConfig)"
  using New_result_eq [OF assms]
  by (simp_all add: New_Some_state built_def fill_configs)

text \<open>
  Claim C4. When the caller's record has \<^verbatim>\<open>Level\<close> and \<^verbatim>\<open>FileName\<close> set and every other
  field zero, the configuration of the constructed logger, read through
  \<^verbatim>\<open>GetConfig\<close>, keeps the two caller fields and has the default configuration's
  value in each of the other five.
\<close>

theorem New_fills_unset_fields:
  assumes "Level (configs s c) \<noteq> ''''" and "FileName (configs s c) \<noteq> ''''"
    and "MaxSize (configs s c) = 0" and "MaxAge (configs s c) = 0"
    and "MaxBackups (configs s c) = 0" and "\<not> Compress (configs s c)"
    and "TimeZone (configs s c) = ''''"
  shows "case New env (Some c) s of
           Inl p \<Rightarrow> False
         | Inr (l, s1) \<Rightarrow>
             (case GetConfig l s1 of
                Inl p \<Rightarrow> False
              | Inr (g, s2) \<Rightarrow>
                  configs s2 g =
                    \<lparr>Level = Level (configs s c), FileName = FileName (configs s c),
                     MaxSize = MaxSize (configs s defaultConfig),
                     MaxAge = MaxAge (configs s defaultConfig),
                     MaxBackups = MaxBackups (configs s defaultConfig),
                     Compress = Compress (configs s defaultConfig),
                     TimeZone = TimeZone (configs s defaultConfig)\<rparr>)"
proof -
  obtain l s1 where n: "New env (Some c) s = Inr (l, s1)"
    using New_returns by blast
  obtain g s2 where g: "GetConfig l s1 = Inr (g, s2)"
    using GetConfig_Some [OF New_Some_config(1) [OF n]] by blast
  have "configs s2 g = filled (configs s c) (configs s defaultConfig)"
    using GetConfig_reads [OF g] New_Some_config [OF n] by auto
  with assms show ?thesis
    by (simp add: n g filled_def)
qed

lemma example_env_simps:
  "LoadLocation example_env =
     (\<lambda>n. if n = ''Asia/Shanghai'' \<or> n = ''UTC'' then Some (Zone n) else None)"
  "Dir example_env =
     (\<lambda>p. if p = ''./logs/app.log'' then ''logs''
          else if p = ''/proc/none/x.log'' then ''/proc/none'' else ''.'')"
  "MkdirAll example_env = (\<lambda>d. d = ''logs'')"
  by (simp_all add: example_env_def)

lemmas example_defs = start_def newConfig_def defaultConfig_def defaultConfig_literal_def
  zeroConfig_def zeroLogger_def example_env_simps filled_def built_def
  New_Some_returns New_Some_state fill_configs GetConfig_def

theorem New_fills_unset_fields_witness:
  "case New example_env (Some 1) (snd (newConfig partial_config start)) of
     Inl p \<Rightarrow> False
   | Inr (l, s1) \<Rightarrow>
       (case GetConfig l s1 of
          Inl p \<Rightarrow> False
        | Inr (g, s2) \<Rightarrow>
            configs s2 g =
              \<lparr>Level = ''warn'', FileName = ''./test_logs/partial.log'', MaxSize = 100, MaxAge = 7,
               MaxBackups = 10, Compress = True, TimeZone = ''Asia/Shanghai''\<rparr>)"
  using New_fills_unset_fields [of "snd (newConfig partial_config start)" 1 example_env]
  by (simp add: example_defs partial_config_def)

lemma zap_log_ok:
  "logger (loggers s l) = Some z \<Longrightarrow> \<exists>s'. zap_log lvl l m flds s = Inr s'"
  by (simp add: zap_log_def Let_def)

text \<open>
  Claim C3. \<^verbatim>\<open>New\<close> returns a logger with a zap logger installed for every argument (nil
  or not), environment and state; a zone that \<^verbatim>\<open>time.LoadLocation\<close> rejects gives the local
  zone, a level text that zap rejects gives the info level, and every logging method
  then returns without a panic. A directory that cannot be created changes nothing:
  the outcome of \<^verbatim>\<open>os.MkdirAll\<close> is dropped.
\<close>

theorem New_never_fails:
  "case New env config0 s of
     Inl p \<Rightarrow> False
   | Inr (l, s') \<Rightarrow>
       (case config (loggers s' l) of
          None \<Rightarrow> False
        | Some c \<Rightarrow>
            (let cfg = configs s' c in
             logger (loggers s' l) \<noteq> None \<and>
             (LoadLocation env (TimeZone cfg) = None \<longrightarrow>
                (\<exists>z. logger (loggers s' l) = Some z \<and> enc z = JSONEncoder Local)) \<and>
             ((\<exists>e. UnmarshalText env (Level cfg) = Inl e) \<longrightarrow> level (loggers s' l) = InfoLevel) \<and>
             (\<forall>(fmt :: 'v Fmt) ctx m flds.
                (\<exists>t. Debug fmt l ctx m flds s' = Inr t) \<and> (\<exists>t. Info fmt l ctx m flds s' = Inr t) \<and>
                (\<exists>t. Warn fmt l ctx m flds s' = Inr t) \<and> (\<exists>t. Error fmt l ctx m flds s' = Inr t) \<and>
                (\<exists>t. Fatal fmt l ctx m flds s' = Inr t)) \<and>
             (\<forall>(fmt :: 'v Fmt) ctx m args.
                (\<exists>t. Debugf fmt l ctx m args s' = Inr t) \<and> (\<exists>t. Infof fmt l ctx m args s' = Inr t) \<and>
                (\<exists>t. Warnf fmt l ctx m args s' = Inr t) \<and> (\<exists>t. Errorf fmt l ctx m args s' = Inr t))))"
proof -
  obtain l s' where n: "New env config0 s = Inr (l, s')"
    using New_returns by blast
  obtain c where c: "config (loggers s' l) = Some c"
    using New_config_addr [OF n] by blast
  define cfg where "cfg = configs s' c"
  have b: "loggers s' l = built env cfg c"
    unfolding cfg_def by (rule New_result [OF n c])
  have lg: "logger (loggers s' l) = logger (built env cfg c)"
    using b by simp
  have lv: "level (loggers s' l) = level (built env cfg c)"
    using b by simp
  obtain z where z: "logger (loggers s' l) = Some z"
    using lg by (simp add: built_def)
  have 1: "logger (loggers s' l) \<noteq> None"
    using z by simp
  have 2: "LoadLocation env (TimeZone cfg) = None \<longrightarrow>
         (\<exists>z. logger (loggers s' l) = Some z \<and> enc z = JSONEncoder Local)"
    using lg by (simp add: built_def)
  have 3: "(\<exists>e. UnmarshalText env (Level cfg) = Inl e) \<longrightarrow> level (loggers s' l) = InfoLevel"
    using lv by (auto simp: built_def)
  have 4: "\<exists>t. zap_log lvl l m flds s' = Inr t" for lvl m flds
    by (rule zap_log_ok [OF z])
  show ?thesis
    unfolding n sum.case prod.case c option.case Let_def cfg_def [symmetric]
    using 1 2 3 4
    by (simp add: Debug_def Info_def Warn_def Error_def Fatal_def
        Debugf_def Infof_def Warnf_def Errorf_def)
qed

theorem New_never_fails_witness:
  "LoadLocation example_env ''Not/AZone'' = None \<and>
   UnmarshalText example_env ''bogus'' = Inl (UnrecognizedLevel ''bogus'') \<and>
   (case New example_env (Some 1) (snd (newConfig bogus_config start)) of
      Inl p \<Rightarrow> False
    | Inr (l, s') \<Rightarrow>
        config (loggers s' l) = Some 1 \<and>
        TimeZone (configs s' 1) = ''Not/AZone'' \<and>
        Level (configs s' 1) = ''bogus'' \<and>
        level (loggers s' l) = InfoLevel \<and>
        (\<exists>z. logger (loggers s' l) = Some z \<and> enc z = JSONEncoder Local) \<and>
        (\<exists>t. Info example_fmt l None ''hello'' [] s' = Inr t))"
  using New_never_fails [where 'v = string, of example_env "Some 1" "snd (newConfig bogus_config start)"]
  by (simp add: Let_def example_defs bogus_config_def UnmarshalText_rejects Info_def zap_log_def)

subsection \<open>The example state\<close>

lemma warn_state_New:
  "New example_env (Some 1) (snd (newConfig partial_config start)) = Inr (0, warn_state)"
  by (simp add: New_Some_returns warn_state_def newConfig_def start_def)

lemma warn_state_logger:
  "loggers warn_state 0 =
     \<lparr>logger = Some \<lparr>enc = JSONEncoder (Zone ''Asia/Shanghai''),
                      out = [Stdout, Lumberjack ''./test_logs/partial.log'' 100 7 10 True],
                      enab = SharedLevel\<rparr>,
      config = Some 1, level = WarnLevel\<rparr>"
  by (simp add: warn_state_def example_defs partial_config_def UnmarshalText_names)

lemma warn_state_config:
  "configs warn_state (Suc 0) =
     \<lparr>Level = ''warn'', FileName = ''./test_logs/partial.log'', MaxSize = 100, MaxAge = 7,
      MaxBackups = 10, Compress = True, TimeZone = ''Asia/Shanghai''\<rparr>"
  by (simp add: warn_state_def example_defs partial_config_def)

lemma warn_state_built: "built_by_New 0 warn_state"
proof (rule b_New_record)
  show "1 < nextConfig (snd (newConfig partial_config start))"
    by (simp add: newConfig_def start_def)
  show "New example_env (Some 1) (snd (newConfig partial_config start)) = Inr (0, warn_state)"
    by (rule warn_state_New)
qed

subsection \<open>Loggers that New built\<close>

lemma well_built_frame:
  assumes "well_built l s"
    and "nextLogger s \<le> nextLogger s'" and "nextConfig s \<le> nextConfig s'"
    and "config (loggers s' l) = config (loggers s l)"
    and "logger (loggers s' l) = logger (loggers s l)"
  shows "well_built l s'"
  using assms by (auto simp: well_built_def split: option.splits)

lemma New_state_frame:
  "nextConfig s \<le> nextConfig (New_state env config0 s) \<and>
   nextLogger (New_state env config0 s) = Suc (nextLogger s) \<and>
   (l \<noteq> nextLogger s \<longrightarrow> loggers (New_state env config0 s) l = loggers s l) \<and>
   globalLogger (New_state env config0 s) = globalLogger s \<and>
   once (New_state env config0 s) = once s \<and>
   writes (New_state env config0 s) = writes s \<and>
   exited (New_state env config0 s) = exited s"
  by (cases config0) (simp_all add: New_state_None New_Some_state newConfig_def)

lemma New_well_built_other:
  assumes "well_built l s" and "New env config0 s = Inr (l', s')"
  shows "well_built l s'"
proof -
  have s': "s' = New_state env config0 s"
    by (rule New_result_eq(2) [OF assms(2)])
  have "l \<noteq> nextLogger s"
    using assms(1) by (simp add: well_built_def)
  then show ?thesis
    unfolding s' by (intro well_built_frame [OF assms(1)]) (simp_all add: New_state_frame)
qed

lemma New_well_built_new:
  assumes "New env config0 s = Inr (l, s')" and "\<And>c. config0 = Some c \<Longrightarrow> c < nextConfig s"
  shows "well_built l s'"
proof -
  have l: "l = nextLogger s" and s': "s' = New_state env config0 s"
    by (rule New_result_eq [OF assms(1)])+
  define c where "c = (case config0 of None \<Rightarrow> nextConfig s | Some a \<Rightarrow> a)"
  have c: "config (loggers s' l) = Some c"
    unfolding c_def by (rule New_config_addr [OF assms(1)])
  have "loggers s' l = built env (configs s' c) c"
    by (rule New_result [OF assms(1) c])
  then have z: "logger (loggers s' l) = logger (built env (configs s' c) c)"
    by simp
  have "c < nextConfig s'"
  proof (cases config0)
    case None
    then show ?thesis
      by (simp add: c_def s' New_state_None New_Some_state newConfig_def)
  next
    case (Some a)
    with assms(2) have "a < nextConfig s"
      by simp
    with Some show ?thesis
      by (simp add: c_def s' New_Some_state)
  qed
  then show ?thesis
    using c z by (simp add: well_built_def l s' New_state_frame built_def)
qed

lemma SetLevel_frame:
  "config (loggers (snd (SetLevel env l' name s)) l) = config (loggers s l)"
  "logger (loggers (snd (SetLevel env l' name s)) l) = logger (loggers s l)"
  "nextLogger (snd (SetLevel env l' name s)) = nextLogger s"
  "nextConfig (snd (SetLevel env l' name s)) = nextConfig s"
  by (simp_all add: SetLevel_def Let_def store_simps split: sum.splits option.splits)

lemma Default_cases:
  assumes "Default env s = Inr (r, s')"
  shows "s' = s \<or> s' = s\<lparr>once := True\<rparr> \<or>
         s' = (New_state env (Some defaultConfig) s)
                \<lparr>globalLogger := Some (nextLogger s), once := True\<rparr>"
proof (cases "globalLogger s")
  case (Some g)
  with assms show ?thesis
    by (simp add: Default_def)
next
  case None
  show ?thesis
  proof (cases "once s")
    case True
    with None assms show ?thesis
      by (simp add: Default_def)
  next
    case False
    have "Default env s =
        Inr (Some (nextLogger s),
             (New_state env (Some defaultConfig) s)\<lparr>globalLogger := Some (nextLogger s), once := True\<rparr>)"
      using None False by (simp add: Default_def New_Some_returns)
    moreover have "s' = snd (projr (Default env s))"
      using assms by simp
    ultimately have "s' = (New_state env (Some defaultConfig) s)
        \<lparr>globalLogger := Some (nextLogger s), once := True\<rparr>"
      by (simp only: sum.sel snd_conv)
    then show ?thesis
      by blast
  qed
qed

lemma well_built_fields:
  "well_built l (s\<lparr>once := b\<rparr>) = well_built l s"
  "well_built l (s\<lparr>globalLogger := g\<rparr>) = well_built l s"
  "well_built l (s\<lparr>globalLogger := g, once := b\<rparr>) = well_built l s"
  "well_built l (s\<lparr>writes := w\<rparr>) = well_built l s"
  "well_built l (s\<lparr>exited := b\<rparr>) = well_built l s"
  "well_built l (s\<lparr>writes := w, exited := b\<rparr>) = well_built l s"
  by (simp_all add: well_built_def split: option.splits)

lemma zap_log_state:
  assumes "zap_log lvl l m flds s = Inr s'"
  shows "\<exists>w b. s' = s\<lparr>writes := w, exited := b\<rparr>"
proof (cases "logger (loggers s l)")
  case None
  with assms show ?thesis
    by (simp add: zap_log_def)
next
  case (Some z)
  define w where "w = (if Enabled (current_level (loggers s l) z) lvl
     then writes s @ fan_out z \<lparr>severity = lvl, message = m, entry_fields = flds\<rparr> else writes s)"
  have "s' = s\<lparr>writes := w, exited := (if lvl = FatalLevel then True else exited s)\<rparr>"
    using assms Some by (auto simp: zap_log_def Let_def w_def split: if_splits)
  then show ?thesis
    by blast
qed

lemma built_by_New_well_built: "built_by_New l s \<Longrightarrow> well_built l s"
proof (induction rule: built_by_New.induct)
  case (b_New_nil env s l s')
  show ?case
    by (rule New_well_built_new [OF b_New_nil]) simp
next
  case (b_New_record c s env l s')
  show ?case
    by (rule New_well_built_new [OF b_New_record(2)]) (use b_New_record(1) in simp)
next
  case (b_alloc l s v)
  show ?case
    by (rule well_built_frame [OF b_alloc.IH]) (simp_all add: newConfig_def)
next
  case (b_assign l s c f)
  show ?case
    by (rule well_built_frame [OF b_assign.IH]) (simp_all add: store_simps)
next
  case (b_New l s env config0 l' s')
  show ?case
    by (rule New_well_built_other [OF b_New.IH b_New.hyps(2)])
next
  case (b_SetLevel l s env l' name)
  show ?case
    by (rule well_built_frame [OF b_SetLevel.IH]) (simp_all add: SetLevel_frame)
next
  case (b_GetConfig l s l' g s')
  from GetConfig_reads [OF b_GetConfig.hyps(2)] obtain c where
    "loggers s' = loggers s" "nextConfig s' = Suc (nextConfig s)" "g = nextConfig s"
    "configs s' g = configs s c"
    by blast
  moreover have "nextLogger s' = nextLogger s"
    using b_GetConfig.hyps(2)
    by (cases "config (loggers s l')") (auto simp: GetConfig_def newConfig_def)
  ultimately show ?case
    by (intro well_built_frame [OF b_GetConfig.IH]) simp_all
next
  case (b_Default l s env r s')
  have "well_built l (New_state env (Some defaultConfig) s)"
    by (rule New_well_built_other [OF b_Default.IH New_Some_returns])
  with Default_cases [OF b_Default.hyps(2)] b_Default.IH show ?case
    by (auto simp: well_built_fields)
next
  case (b_SetGlobalConfig l s env config0 s')
  obtain l' t where n: "New env config0 s = Inr (l', t)"
    using New_returns by blast
  with b_SetGlobalConfig.hyps(2) have "s' = t\<lparr>globalLogger := Some l'\<rparr>"
    by (simp add: SetGlobalConfig_def)
  then show ?case
    using New_well_built_other [OF b_SetGlobalConfig.IH n] by (simp add: well_built_fields)
next
  case (b_log l s lvl l' m flds s')
  from zap_log_state [OF b_log.hyps(2)] b_log.IH show ?case
    by (auto simp: well_built_fields)
qed

lemma built_by_New_config:
  assumes "built_by_New l s"
  obtains c where "config (loggers s l) = Some c" and "c < nextConfig s"
  using built_by_New_well_built [OF assms]
  by (auto simp: well_built_def split: option.splits)

subsection \<open>Level changes\<close>

lemma SetLevel_accepts:
  assumes "UnmarshalText env name = Inr v" and "config (loggers s l) = Some c"
  shows "SetLevel env l name s =
           (Inr None,
            store c (\<lambda>x. x\<lparr>Level := name\<rparr>) (s\<lparr>loggers := (loggers s)(l := (loggers s l)\<lparr>level := v\<rparr>)\<rparr>))"
  using assms by (simp add: SetLevel_def Let_def)

lemma SetLevel_rejects:
  assumes "UnmarshalText env name = Inl e"
  shows "SetLevel env l name s = (Inr (Some e), s)"
  using assms by (simp add: SetLevel_def)

lemma SetLevel_panics:
  assumes "UnmarshalText env name = Inr v" and "config (loggers s l) = None"
  shows "fst (SetLevel env l name s) = Inl NilPointerDereference"
  using assms by (simp add: SetLevel_def Let_def)

lemma UnmarshalText_error: "UnmarshalText env name = Inl e \<Longrightarrow> e = UnrecognizedLevel name"
  by (auto simp: UnmarshalText_def split: option.splits)

text \<open>
  Claim C2. On a logger that \<^verbatim>\<open>New\<close> built: for each of the names \<^verbatim>\<open>debug\<close>, \<^verbatim>\<open>info\<close>,
  \<^verbatim>\<open>warn\<close>, \<^verbatim>\<open>error\<close> and \<^verbatim>\<open>fatal\<close>, \<^verbatim>\<open>SetLevel\<close> returns nil, the gate holds the level
  the name denotes, and a following \<^verbatim>\<open>GetConfig\<close> reads exactly that name. For every
  text that zap's parser rejects, \<^verbatim>\<open>SetLevel\<close> returns the parser's error and the state is
  the one before: the gate level and what \<^verbatim>\<open>GetConfig\<close> reads are unchanged.
\<close>

theorem SetLevel_contract:
  assumes "built_by_New l s"
  shows
    "(name \<in> {''debug'', ''info'', ''warn'', ''error'', ''fatal''} \<longrightarrow>
        (case SetLevel env l name s of (r, s1) \<Rightarrow>
           r = Inr None \<and> UnmarshalText env name = Inr (level (loggers s1 l)) \<and>
           (case GetConfig l s1 of
              Inl p \<Rightarrow> False
            | Inr (g, s2) \<Rightarrow> Level (configs s2 g) = name))) \<and>
     ((\<exists>e. UnmarshalText env name = Inl e) \<longrightarrow>
        (case SetLevel env l name s of (r, s1) \<Rightarrow>
           r = Inr (Some (UnrecognizedLevel name)) \<and> s1 = s \<and>
           level (loggers s1 l) = level (loggers s l) \<and>
           (case GetConfig l s of
              Inl p \<Rightarrow> False
            | Inr (g0, t0) \<Rightarrow>
                (case GetConfig l s1 of
                   Inl p \<Rightarrow> False
                 | Inr (g, s2) \<Rightarrow> Level (configs s2 g) = Level (configs t0 g0)))))"
proof -
  obtain c where c: "config (loggers s l) = Some c"
    using assms by (rule built_by_New_config)
  have ok: "case SetLevel env l name s of (r, s1) \<Rightarrow>
           r = Inr None \<and> UnmarshalText env name = Inr (level (loggers s1 l)) \<and>
           (case GetConfig l s1 of
              Inl p \<Rightarrow> False
            | Inr (g, s2) \<Rightarrow> Level (configs s2 g) = name)"
    if v: "UnmarshalText env name = Inr v" for v
    by (simp add: SetLevel_accepts [OF v c] v c store_simps GetConfig_def newConfig_def)
  have valid: "\<exists>v. UnmarshalText env name = Inr v"
    if "name \<in> {''debug'', ''info'', ''warn'', ''error'', ''fatal''}"
    using that UnmarshalText_names [of env] by auto
  have bad: "case SetLevel env l name s of (r, s1) \<Rightarrow>
           r = Inr (Some (UnrecognizedLevel name)) \<and> s1 = s \<and>
           level (loggers s1 l) = level (loggers s l) \<and>
           (case GetConfig l s of
              Inl p \<Rightarrow> False
            | Inr (g0, t0) \<Rightarrow>
                (case GetConfig l s1 of
                   Inl p \<Rightarrow> False
                 | Inr (g, s2) \<Rightarrow> Level (configs s2 g) = Level (configs t0 g0)))"
    if e: "UnmarshalText env name = Inl e" for e
    using UnmarshalText_error [OF e]
    by (simp add: SetLevel_rejects [OF e] c GetConfig_def newConfig_def)
  show ?thesis
  proof (intro conjI impI)
    assume "name \<in> {''debug'', ''info'', ''warn'', ''error'', ''fatal''}"
    then obtain v where "UnmarshalText env name = Inr v"
      using valid by blast
    then show "case SetLevel env l name s of (r, s1) \<Rightarrow>
           r = Inr None \<and> UnmarshalText env name = Inr (level (loggers s1 l)) \<and>
           (case GetConfig l s1 of
              Inl p \<Rightarrow> False
            | Inr (g, s2) \<Rightarrow> Level (configs s2 g) = name)"
      by (rule ok)
  next
    assume "\<exists>e. UnmarshalText env name = Inl e"
    then obtain e where "UnmarshalText env name = Inl e" ..
    then show "case SetLevel env l name s of (r, s1) \<Rightarrow>
           r = Inr (Some (UnrecognizedLevel name)) \<and> s1 = s \<and>
           level (loggers s1 l) = level (loggers s l) \<and>
           (case GetConfig l s of
              Inl p \<Rightarrow> False
            | Inr (g0, t0) \<Rightarrow>
                (case GetConfig l s1 of
                   Inl p \<Rightarrow> False
                 | Inr (g, s2) \<Rightarrow> Level (configs s2 g) = Level (configs t0 g0)))"
      by (rule bad)
  qed
qed

theorem SetLevel_contract_witness:
  "built_by_New 0 warn_state \<and>
   ''debug'' \<in> {''debug'', ''info'', ''warn'', ''error'', ''fatal''} \<and>
   (\<exists>e. UnmarshalText example_env ''not-a-level'' = Inl e) \<and>
   level (loggers warn_state 0) = WarnLevel \<and>
   (case SetLevel example_env 0 ''debug'' warn_state of (r, s1) \<Rightarrow>
      r = Inr None \<and> level (loggers s1 0) = DebugLevel \<and>
      (case GetConfig 0 s1 of
         Inl p \<Rightarrow> False
       | Inr (g, s2) \<Rightarrow> Level (configs s2 g) = ''debug'')) \<and>
   (case SetLevel example_env 0 ''not-a-level'' warn_state of (r, s1) \<Rightarrow>
      r = Inr (Some (UnrecognizedLevel ''not-a-level'')) \<and> s1 = warn_state \<and>
      (case GetConfig 0 s1 of
         Inl p \<Rightarrow> False
       | Inr (g, s2) \<Rightarrow> Level (configs s2 g) = ''warn''))"
  using warn_state_built
    SetLevel_contract [OF warn_state_built, of "''debug''" example_env]
    SetLevel_contract [OF warn_state_built, of "''not-a-level''" example_env]
  by (simp add: SetLevel_def Let_def store_simps GetConfig_def newConfig_def
      UnmarshalText_names UnmarshalText_rejects warn_state_logger warn_state_config)

text \<open>
  On a zero-valued \<^verbatim>\<open>Logger\<close>, which \<^verbatim>\<open>New\<close> did not build, a name that parses sets the
  level and then panics at \<^verbatim>\<open>l.config.Level\<close>, and \<^verbatim>\<open>GetConfig\<close> panics.
\<close>

lemma zero_Logger_panics:
  "fst (SetLevel env 7 ''debug'' start) = Inl NilPointerDereference"
  "level (loggers (snd (SetLevel env 7 ''debug'' start)) 7) = DebugLevel"
  "GetConfig 7 start = Inl NilPointerDereference"
  by (simp_all add: SetLevel_def Let_def UnmarshalText_names GetConfig_def start_def zeroLogger_def)

subsection \<open>Trace enrichment\<close>

text \<open>
  Claim C5. \<^verbatim>\<open>addTraceID\<close> returns the caller's fields unchanged for a nil context and
  for a context without a value under \<^verbatim>\<open>traceId\<close>. For a context with a non-nil value
  of any type it returns the caller's fields followed by exactly one more field, a
  string field named \<^verbatim>\<open>traceId\<close> holding \<^verbatim>\<open>fmt.Sprint\<close> of the value. The function
  has no error result.
\<close>

theorem addTraceID_law:
  "(ctx = None \<longrightarrow> addTraceID fmt ctx flds = flds) \<and>
   (\<forall>c. ctx = Some c \<and> c ''traceId'' = None \<longrightarrow> addTraceID fmt ctx flds = flds) \<and>
   (\<forall>c v. ctx = Some c \<and> c ''traceId'' = Some v \<longrightarrow>
      addTraceID fmt ctx flds = flds @ [zap_String ''traceId'' (Sprint fmt v)] \<and>
      length (addTraceID fmt ctx flds) = length flds + 1 \<and>
      take (length flds) (addTraceID fmt ctx flds) = flds \<and>
      Key (last (addTraceID fmt ctx flds)) = ''traceId'' \<and>
      Type (last (addTraceID fmt ctx flds)) = StringType \<and>
      String (last (addTraceID fmt ctx flds)) = Sprint fmt v)"
  by (simp add: addTraceID_def zap_String_def)

theorem addTraceID_law_witness:
  "addTraceID example_fmt None [zap_String ''test'' ''value''] = [zap_String ''test'' ''value''] \<and>
   addTraceID example_fmt (Some (\<lambda>k. None)) [zap_String ''test'' ''value''] =
     [zap_String ''test'' ''value''] \<and>
   trace_ctx ''traceId'' = Some ''test-trace-123'' \<and>
   addTraceID example_fmt (Some trace_ctx) [zap_String ''test'' ''value''] =
     [zap_String ''test'' ''value'', zap_String ''traceId'' ''test-trace-123''] \<and>
   length (addTraceID example_fmt (Some trace_ctx) [zap_String ''test'' ''value'']) = 2"
  using addTraceID_law [of None example_fmt "[zap_String ''test'' ''value'']"]
    addTraceID_law [of "Some (\<lambda>k. None)" example_fmt "[zap_String ''test'' ''value'']"]
    addTraceID_law [of "Some trace_ctx" example_fmt "[zap_String ''test'' ''value'']"]
  by (simp add: trace_ctx_def example_fmt_def)

subsection \<open>Flushing\<close>

text \<open>\<^verbatim>\<open>strings.Contains\<close> as modelled decides the substring relation.\<close>

lemma Contains_sublist: "Contains s substr = sublist substr s"
  by (induction s) (simp_all add: sublist_Cons_right)

text \<open>
  Claim C9. On a logger with a zap logger installed, \<^verbatim>\<open>Sync\<close> returns nil when the
  flush returns nil; it returns nil when the flush error's message contains
  \<^verbatim>\<open>bad file descriptor\<close>, \<^verbatim>\<open>invalid argument\<close> or \<^verbatim>\<open>/dev/stdout\<close>; and it returns
  every other flush error as it is.
\<close>

theorem Sync_allow_list:
  assumes "logger (loggers s l) = Some z"
  shows "Sync l None s = Inr None \<and>
    (sublist ''bad file descriptor'' (error_text e) \<or> sublist ''invalid argument'' (error_text e) \<or>
     sublist ''/dev/stdout'' (error_text e) \<longrightarrow> Sync l (Some e) s = Inr None) \<and>
    (\<not> sublist ''bad file descriptor'' (error_text e) \<and> \<not> sublist ''invalid argument'' (error_text e) \<and>
     \<not> sublist ''/dev/stdout'' (error_text e) \<longrightarrow> Sync l (Some e) s = Inr (Some e))"
  using assms by (simp add: Sync_def Let_def Contains_sublist)

theorem Sync_allow_list_witness:
  "logger (loggers warn_state 0) \<noteq> None \<and>
   Sync 0 None warn_state = Inr None \<and>
   sublist ''/dev/stdout'' ''sync /dev/stdout: invalid argument'' \<and>
   Sync 0 (Some (SyncError ''sync /dev/stdout: invalid argument'')) warn_state = Inr None \<and>
   Sync 0 (Some (SyncError ''sync /dev/stderr: bad file descriptor'')) warn_state = Inr None \<and>
   \<not> sublist ''bad file descriptor'' ''write x.log: input/output error'' \<and>
   \<not> sublist ''invalid argument'' ''write x.log: input/output error'' \<and>
   \<not> sublist ''/dev/stdout'' ''write x.log: input/output error'' \<and>
   Sync 0 (Some (SyncError ''write x.log: input/output error'')) warn_state =
     Inr (Some (SyncError ''write x.log: input/output error''))"
  using Sync_allow_list [of warn_state 0 _ "SyncError ''sync /dev/stdout: invalid argument''"]
    Sync_allow_list [of warn_state 0 _ "SyncError ''sync /dev/stderr: bad file descriptor''"]
    Sync_allow_list [of warn_state 0 _ "SyncError ''write x.log: input/output error''"]
  by (simp add: warn_state_logger Contains_sublist [symmetric])

subsection \<open>The level gate\<close>

lemma fan_out_empty: "(fan_out z e = []) = (out z = [])"
  by (simp add: fan_out_def)

lemma zap_log_writes:
  assumes "logger (loggers s l) = Some z" and "enab z = SharedLevel"
  shows "sink_writes s (zap_log lvl l m flds s) =
           Some (if level_num (level (loggers s l)) \<le> level_num lvl
                 then fan_out z \<lparr>severity = lvl, message = m, entry_fields = flds\<rparr> else [])"
  using assms
  by (simp add: zap_log_def sink_writes_def Let_def current_level_def Enabled_def)

text \<open>
  Claim C1. On a logger whose core reads the logger's own level, each structured and
  each formatted method hands its record to every sink exactly when the level's number
  is at most the number of the method's severity, and hands nothing over otherwise;
  the numbers order the severities debug, info, warn, error, fatal. At level
  \<^verbatim>\<open>warn\<close> the debug and info methods write nothing, and the warn and error methods
  write to the sinks.
\<close>

theorem gate_law:
  assumes "logger (loggers s l) = Some z" and "enab z = SharedLevel"
  shows
    "sink_writes s (Debug fmt l ctx m flds s) =
       Some (if level_num (level (loggers s l)) \<le> level_num DebugLevel
             then fan_out z \<lparr>severity = DebugLevel, message = m, entry_fields = addTraceID fmt ctx flds\<rparr>
             else []) \<and>
     sink_writes s (Info fmt l ctx m flds s) =
       Some (if level_num (level (loggers s l)) \<le> level_num InfoLevel
             then fan_out z \<lparr>severity = InfoLevel, message = m, entry_fields = addTraceID fmt ctx flds\<rparr>
             else []) \<and>
     sink_writes s (Warn fmt l ctx m flds s) =
       Some (if level_num (level (loggers s l)) \<le> level_num WarnLevel
             then fan_out z \<lparr>severity = WarnLevel, message = m, entry_fields = addTraceID fmt ctx flds\<rparr>
             else []) \<and>
     sink_writes s (Error fmt l ctx m flds s) =
       Some (if level_num (level (loggers s l)) \<le> level_num ErrorLevel
             then fan_out z \<lparr>severity = ErrorLevel, message = m, entry_fields = addTraceID fmt ctx flds\<rparr>
             else []) \<and>
     sink_writes s (Fatal fmt l ctx m flds s) =
       Some (if level_num (level (loggers s l)) \<le> level_num FatalLevel
             then fan_out z \<lparr>severity = FatalLevel, message = m, entry_fields = addTraceID fmt ctx flds\<rparr>
             else []) \<and>
     sink_writes s (Debugf fmt l ctx m args s) =
       Some (if level_num (level (loggers s l)) \<le> level_num DebugLevel
             then fan_out z \<lparr>severity = DebugLevel, message = getMessage fmt m args,
                              entry_fields = sugar_fields fmt ctx\<rparr>
             else []) \<and>
     sink_writes s (Infof fmt l ctx m args s) =
       Some (if level_num (level (loggers s l)) \<le> level_num InfoLevel
             then fan_out z \<lparr>severity = InfoLevel, message = getMessage fmt m args,
                              entry_fields = sugar_fields fmt ctx\<rparr>
             else []) \<and>
     sink_writes s (Warnf fmt l ctx m args s) =
       Some (if level_num (level (loggers s l)) \<le> level_num WarnLevel
             then fan_out z \<lparr>severity = WarnLevel, message = getMessage fmt m args,
                              entry_fields = sugar_fields fmt ctx\<rparr>
             else []) \<and>
     sink_writes s (Errorf fmt l ctx m args s) =
       Some (if level_num (level (loggers s l)) \<le> level_num ErrorLevel
             then fan_out z \<lparr>severity = ErrorLevel, message = getMessage fmt m args,
                              entry_fields = sugar_fields fmt ctx\<rparr>
             else []) \<and>
     (level (loggers s l) = WarnLevel \<longrightarrow>
        sink_writes s (Debug fmt l ctx m flds s) = Some [] \<and>
        sink_writes s (Info fmt l ctx m flds s) = Some [] \<and>
        sink_writes s (Debugf fmt l ctx m args s) = Some [] \<and>
        sink_writes s (Infof fmt l ctx m args s) = Some [] \<and>
        (out z \<noteq> [] \<longrightarrow>
           sink_writes s (Warn fmt l ctx m flds s) \<notin> {None, Some []} \<and>
           sink_writes s (Error fmt l ctx m flds s) \<notin> {None, Some []} \<and>
           sink_writes s (Warnf fmt l ctx m args s) \<notin> {None, Some []} \<and>
           sink_writes s (Errorf fmt l ctx m args s) \<notin> {None, Some []})) \<and>
     level_num DebugLevel < level_num InfoLevel \<and> level_num InfoLevel < level_num WarnLevel \<and>
     level_num WarnLevel < level_num ErrorLevel \<and> level_num ErrorLevel < level_num FatalLevel"
  unfolding Debug_def Info_def Warn_def Error_def Fatal_def Debugf_def Infof_def Warnf_def Errorf_def
  by (simp add: zap_log_writes [OF assms] fan_out_empty)

theorem gate_law_witness:
  "logger (loggers warn_state 0) =
     Some \<lparr>enc = JSONEncoder (Zone ''Asia/Shanghai''),
           out = [Stdout, Lumberjack ''./test_logs/partial.log'' 100 7 10 True], enab = SharedLevel\<rparr> \<and>
   level (loggers warn_state 0) = WarnLevel \<and>
   sink_writes warn_state (Debug example_fmt 0 (Some trace_ctx) ''d'' [] warn_state) = Some [] \<and>
   sink_writes warn_state (Info example_fmt 0 (Some trace_ctx) ''i'' [] warn_state) = Some [] \<and>
   sink_writes warn_state (Warn example_fmt 0 (Some trace_ctx) ''w'' [] warn_state) =
     Some [(Stdout, \<lparr>severity = WarnLevel, message = ''w'',
                     entry_fields = [zap_String ''traceId'' ''test-trace-123'']\<rparr>),
           (Lumberjack ''./test_logs/partial.log'' 100 7 10 True,
            \<lparr>severity = WarnLevel, message = ''w'',
             entry_fields = [zap_String ''traceId'' ''test-trace-123'']\<rparr>)] \<and>
   sink_writes warn_state (Error example_fmt 0 (Some trace_ctx) ''e'' [] warn_state) \<notin> {None, Some []}"
  using gate_law [of warn_state 0
      "\<lparr>enc = JSONEncoder (Zone ''Asia/Shanghai''),
        out = [Stdout, Lumberjack ''./test_logs/partial.log'' 100 7 10 True], enab = SharedLevel\<rparr>"
      example_fmt "Some trace_ctx" "''d''" "[]" "[]"]
    gate_law [of warn_state 0
      "\<lparr>enc = JSONEncoder (Zone ''Asia/Shanghai''),
        out = [Stdout, Lumberjack ''./test_logs/partial.log'' 100 7 10 True], enab = SharedLevel\<rparr>"
      example_fmt "Some trace_ctx" "''i''" "[]" "[]"]
    gate_law [of warn_state 0
      "\<lparr>enc = JSONEncoder (Zone ''Asia/Shanghai''),
        out = [Stdout, Lumberjack ''./test_logs/partial.log'' 100 7 10 True], enab = SharedLevel\<rparr>"
      example_fmt "Some trace_ctx" "''w''" "[]" "[]"]
    gate_law [of warn_state 0
      "\<lparr>enc = JSONEncoder (Zone ''Asia/Shanghai''),
        out = [Stdout, Lumberjack ''./test_logs/partial.log'' 100 7 10 True], enab = SharedLevel\<rparr>"
      example_fmt "Some trace_ctx" "''e''" "[]" "[]"]
  by (simp add: warn_state_logger fan_out_def addTraceID_def trace_ctx_def example_fmt_def)

subsection \<open>The process singleton\<close>

lemma Default_returns: "\<exists>r s'. Default env s = Inr (r, s')"
  by (cases "globalLogger s") (simp_all add: Default_def New_Some_returns)

lemma Default_again:
  assumes "Default env s = Inr (r, s1)"
  shows "Default env s1 = Inr (r, s1)"
proof (cases "globalLogger s")
  case (Some g)
  have "Default env s = Inr (Some g, s)"
    using Some by (simp add: Default_def)
  with assms have "r = Some g" and "s1 = s"
    by simp_all
  then show ?thesis
    using Some by (simp add: Default_def)
next
  case None
  show ?thesis
  proof (cases "once s")
    case True
    have "Default env s = Inr (None, s)"
      using None True by (simp add: Default_def)
    with assms have "r = None" and "s1 = s"
      by simp_all
    then show ?thesis
      using None True by (simp add: Default_def)
  next
    case False
    define t where "t = New_state env (Some defaultConfig) s"
    have e: "Default env s = Inr (Some (nextLogger s), t\<lparr>globalLogger := Some (nextLogger s), once := True\<rparr>)"
      using None False by (simp add: Default_def New_Some_returns t_def)
    have "r = fst (projr (Default env s))" and "s1 = snd (projr (Default env s))"
      using assms by simp_all
    then have "r = Some (nextLogger s)"
      and "s1 = t\<lparr>globalLogger := Some (nextLogger s), once := True\<rparr>"
      unfolding e by simp_all
    then show ?thesis
      by (simp add: Default_def)
  qed
qed

text \<open>
  Run without interruption, two calls of \<^verbatim>\<open>Default\<close> return the same pointer, and after
  \<^verbatim>\<open>SetGlobalConfig\<close> a call of \<^verbatim>\<open>Default\<close> returns the new logger and changes nothing.
\<close>

lemma Default_sequential:
  "(case Default env s of
      Inl p \<Rightarrow> False
    | Inr (r, s1) \<Rightarrow>
        Default env s1 = Inr (r, s1) \<and> ((once s \<longrightarrow> globalLogger s \<noteq> None) \<longrightarrow> r \<noteq> None)) \<and>
   (case New env config0 s of
      Inl p \<Rightarrow> False
    | Inr (l, s') \<Rightarrow>
        SetGlobalConfig env config0 s = Inr (s'\<lparr>globalLogger := Some l\<rparr>) \<and>
        Default env (s'\<lparr>globalLogger := Some l\<rparr>) = Inr (Some l, s'\<lparr>globalLogger := Some l\<rparr>))"
proof -
  obtain r s1 where d: "Default env s = Inr (r, s1)"
    using Default_returns by blast
  obtain l s' where n: "New env config0 s = Inr (l, s')"
    using New_returns by blast
  have r: "r = fst (projr (Default env s))"
    using d by simp
  have nn: "(once s \<longrightarrow> globalLogger s \<noteq> None) \<longrightarrow> r \<noteq> None"
  proof (cases "globalLogger s")
    case (Some g)
    then show ?thesis
      unfolding r by (simp add: Default_def)
  next
    case None
    then show ?thesis
      unfolding r by (cases "once s") (simp_all add: Default_def New_Some_returns)
  qed
  have g1: "SetGlobalConfig env config0 s = Inr (s'\<lparr>globalLogger := Some l\<rparr>)"
    by (simp add: SetGlobalConfig_def n)
  have g2: "Default env (s'\<lparr>globalLogger := Some l\<rparr>) = Inr (Some l, s'\<lparr>globalLogger := Some l\<rparr>)"
    by (simp add: Default_def)
  show ?thesis
    unfolding d n sum.case prod.case
    using Default_again [OF d] nn g1 g2 by simp
qed

text \<open>Seven consecutive steps of the stepwise \<^verbatim>\<open>Default\<close> are the uninterrupted call.\<close>

lemma Default_steps_uninterrupted:
  "Default_steps 7 env L53 s =
     (case Default env s of Inl p \<Rightarrow> Inl p | Inr (r, s') \<Rightarrow> Inr (Returned r, s'))"
proof (cases "globalLogger s")
  case (Some g)
  then show ?thesis
    by (simp add: eval_nat_numeral Default_step_def Default_def)
next
  case None
  show ?thesis
  proof (cases "once s")
    case True
    with None show ?thesis
      by (simp add: eval_nat_numeral Default_step_def Default_def)
  next
    case False
    with None show ?thesis
      by (simp add: eval_nat_numeral Default_step_def Default_def New_Some_returns New_Some_state)
  qed
qed

lemma race_A_paused_eq:
  "race_A_paused = Inr (L58_assign 0, New_state example_env (Some defaultConfig) start)"
  by (simp add: race_A_paused_def eval_nat_numeral Default_step_def New_Some_returns start_def)

lemma race_B_done_eq:
  "race_B_done =
     Inr ((New_state example_env None (New_state example_env (Some defaultConfig) start))
            \<lparr>globalLogger := Some 1\<rparr>)"
  by (simp add: race_B_done_def race_A_paused_eq SetGlobalConfig_def New_returns New_Some_state
      start_def)

lemma race_A_done_eq:
  "race_A_done =
     Inr (Returned (Some 0),
          (New_state example_env None (New_state example_env (Some defaultConfig) start))
            \<lparr>globalLogger := Some 0, once := True\<rparr>)"
  by (simp add: race_A_done_def race_A_paused_eq race_B_done_eq eval_nat_numeral Default_step_def)

text \<open>
  Claim C6 fails on the code. In the run below, \<^verbatim>\<open>SetGlobalConfig\<close> installs its logger
  (address 1) while a first call of \<^verbatim>\<open>Default\<close> sits between the test of line 57 and the
  assignment of line 58; the assignment then puts the logger built from
  \<^verbatim>\<open>defaultConfig\<close> (address 0) over the replacement, and every later \<^verbatim>\<open>Default\<close>
  returns logger 0.
\<close>

theorem Default_race_overwrites_replacement:
  "(case race_A_paused of
      Inl p \<Rightarrow> False
    | Inr (pc, s) \<Rightarrow> pc = L58_assign 0 \<and> globalLogger s = None \<and> \<not> once s) \<and>
   (case race_B_done of
      Inl p \<Rightarrow> False
    | Inr s \<Rightarrow> globalLogger s = Some 1 \<and> Default example_env s = Inr (Some 1, s)) \<and>
   (case race_A_done of
      Inl p \<Rightarrow> False
    | Inr (pc, s) \<Rightarrow>
        pc = Returned (Some 0) \<and> globalLogger s = Some 0 \<and>
        Default example_env s = Inr (Some 0, s) \<and>
        config (loggers s 0) = Some defaultConfig \<and> config (loggers s 1) = Some 1)"
  by (simp add: race_A_paused_eq race_B_done_eq race_A_done_eq Default_def New_Some_state
      New_state_None built_def start_def newConfig_def defaultConfig_def)

subsection \<open>The default record in reachable states\<close>

lemma filled_same: "filled d d = d"
  by (cases d) (simp add: filled_def)

lemma New_Some_default:
  "configs (New_state env (Some c) s) defaultConfig = configs s defaultConfig"
  by (simp add: New_Some_state fill_configs filled_same)

lemma New_default:
  assumes "defaultConfig < nextConfig s"
  shows "configs (New_state env config0 s) defaultConfig = configs s defaultConfig"
proof (cases config0)
  case None
  from assms have "defaultConfig \<noteq> nextConfig s"
    by simp
  then show ?thesis
    by (simp add: None New_state_None New_Some_default newConfig_def)
next
  case (Some c)
  then show ?thesis
    by (simp add: New_Some_default)
qed

lemma New_state_nextConfig: "nextConfig s \<le> nextConfig (New_state env config0 s)"
  using New_state_frame [of s env config0 0] by simp

lemma New_intact: "default_intact s \<Longrightarrow> default_intact (New_state env config0 s)"
  unfolding default_intact_def
  using New_state_nextConfig [of s env config0]
  by (simp add: New_default)

lemma newConfig_intact: "default_intact s \<Longrightarrow> default_intact (snd (newConfig v s))"
proof -
  assume a: "default_intact s"
  then have "defaultConfig \<noteq> nextConfig s"
    by (simp add: default_intact_def)
  with a show ?thesis
    by (simp add: default_intact_def newConfig_def)
qed

lemma store_intact: "default_intact s \<Longrightarrow> c \<noteq> defaultConfig \<Longrightarrow> default_intact (store c f s)"
  by (simp add: default_intact_def store_simps)

lemma store_Level_intact:
  "default_intact s \<Longrightarrow> default_intact (store c (\<lambda>x. x\<lparr>Level := v\<rparr>) s)"
  by (simp add: default_intact_def store_simps)

lemma default_intact_fields:
  "default_intact (s\<lparr>loggers := b\<rparr>) = default_intact s"
  "default_intact (s\<lparr>once := o'\<rparr>) = default_intact s"
  "default_intact (s\<lparr>globalLogger := g\<rparr>) = default_intact s"
  "default_intact (s\<lparr>globalLogger := g, once := o'\<rparr>) = default_intact s"
  "default_intact (s\<lparr>writes := w, exited := e\<rparr>) = default_intact s"
  by (simp_all add: default_intact_def)

lemma SetLevel_intact: "default_intact s \<Longrightarrow> default_intact (snd (SetLevel env l name s))"
  by (simp add: SetLevel_def Let_def store_Level_intact default_intact_fields
      split: sum.splits option.splits)

lemma GetConfig_intact:
  assumes "default_intact s" and "GetConfig l s = Inr (g, s')"
  shows "default_intact s'"
proof (cases "config (loggers s l)")
  case None
  with assms(2) show ?thesis
    by (simp add: GetConfig_def)
next
  case (Some c)
  with assms(2) have "s' = snd (newConfig (configs s c) s)"
    by (auto simp: GetConfig_def)
  then show ?thesis
    using assms(1) by (simp add: newConfig_intact)
qed

lemma Default_intact:
  assumes "default_intact s" and "Default env s = Inr (r, s')"
  shows "default_intact s'"
  using Default_cases [OF assms(2)] assms(1) New_intact [OF assms(1), of env "Some defaultConfig"]
  by (auto simp: default_intact_fields)

lemma SetGlobalConfig_intact:
  assumes "default_intact s" and "SetGlobalConfig env config0 s = Inr s'"
  shows "default_intact s'"
proof -
  have "s' = (New_state env config0 s)\<lparr>globalLogger := Some (nextLogger s)\<rparr>"
    using assms(2) New_returns [of env config0 s]
    by (cases config0) (simp_all add: SetGlobalConfig_def)
  then show ?thesis
    using New_intact [OF assms(1), of env config0] by (simp add: default_intact_fields)
qed

lemma zap_log_intact:
  assumes "default_intact s" and "zap_log lvl l m flds s = Inr s'"
  shows "default_intact s'"
  using zap_log_state [OF assms(2)] assms(1) by (auto simp: default_intact_fields)

lemma start_intact: "default_intact start"
  by (simp add: default_intact_def start_def defaultConfig_def)

lemma reachable_intact: "reachable s \<Longrightarrow> default_intact s"
proof (induction rule: reachable.induct)
  case r_start
  show ?case by (rule start_intact)
next
  case (r_alloc s v)
  then show ?case by (simp add: newConfig_intact)
next
  case (r_assign s c f)
  then show ?case by (simp add: store_intact)
next
  case (r_New s env config0 l s')
  have "s' = New_state env config0 s"
    by (rule New_result_eq(2) [OF r_New.hyps(2)])
  then show ?case
    using r_New.IH by (simp add: New_intact)
next
  case (r_SetLevel s env l name)
  then show ?case by (simp add: SetLevel_intact)
next
  case (r_GetConfig s l g s')
  show ?case by (rule GetConfig_intact [OF r_GetConfig.IH r_GetConfig.hyps(2)])
next
  case (r_Default s env r s')
  show ?case by (rule Default_intact [OF r_Default.IH r_Default.hyps(2)])
next
  case (r_SetGlobalConfig s env config0 s')
  show ?case by (rule SetGlobalConfig_intact [OF r_SetGlobalConfig.IH r_SetGlobalConfig.hyps(2)])
next
  case (r_log s lvl l m flds s')
  show ?case by (rule zap_log_intact [OF r_log.IH r_log.hyps(2)])
qed

subsection \<open>Who shares a configuration record\<close>

lemma constructed_New:
  "New example_env (Some 1) (snd (newConfig debug_config start)) = Inr (0, constructed)"
  by (simp add: New_Some_returns constructed_def newConfig_def start_def)

lemma constructed_logger:
  "config (loggers constructed 0) = Some (Suc 0)"
  "configs constructed (Suc 0) = debug_config"
  "nextConfig constructed = 2"
  "level (loggers constructed 0) = DebugLevel"
  by (simp_all add: constructed_def example_defs debug_config_def UnmarshalText_names)

lemma constructed_built: "built_by_New 0 constructed"
proof (rule b_New_record)
  show "1 < nextConfig (snd (newConfig debug_config start))"
    by (simp add: newConfig_def start_def)
  show "New example_env (Some 1) (snd (newConfig debug_config start)) = Inr (0, constructed)"
    by (rule constructed_New)
qed

lemma caller_assigned_logger:
  "config (loggers caller_assigned 0) = Some (Suc 0)"
  "configs caller_assigned (Suc 0) = debug_config\<lparr>Level := ''error''\<rparr>"
  by (simp_all add: caller_assigned_def store_simps constructed_logger)

text \<open>
  Claim C7, as stated, fails: \<^verbatim>\<open>New\<close> keeps the caller's pointer. After the caller
  assigns \<^verbatim>\<open>error\<close> to the \<^verbatim>\<open>Level\<close> field of the record it constructed the logger
  from, \<^verbatim>\<open>GetConfig\<close> reads \<^verbatim>\<open>error\<close> where it read \<^verbatim>\<open>debug\<close> before.
\<close>

theorem caller_record_shared_counterexample:
  "New example_env (Some 1) (snd (newConfig debug_config start)) = Inr (0, constructed) \<and>
   (case GetConfig 0 constructed of
      Inl p \<Rightarrow> False
    | Inr (g, s) \<Rightarrow> Level (configs s g) = ''debug'') \<and>
   caller_assigned = store 1 (\<lambda>x. x\<lparr>Level := ''error''\<rparr>) constructed \<and>
   (case GetConfig 0 caller_assigned of
      Inl p \<Rightarrow> False
    | Inr (g, s) \<Rightarrow> Level (configs s g) = ''error'')"
proof (intro conjI)
  show "New example_env (Some 1) (snd (newConfig debug_config start)) = Inr (0, constructed)"
    by (rule constructed_New)
  show "case GetConfig 0 constructed of
      Inl p \<Rightarrow> False
    | Inr (g, s) \<Rightarrow> Level (configs s g) = ''debug''"
    by (simp add: GetConfig_def newConfig_def constructed_logger debug_config_def)
  show "caller_assigned = store 1 (\<lambda>x. x\<lparr>Level := ''error''\<rparr>) constructed"
    by (rule caller_assigned_def)
  show "case GetConfig 0 caller_assigned of
      Inl p \<Rightarrow> False
    | Inr (g, s) \<Rightarrow> Level (configs s g) = ''error''"
    by (simp add: GetConfig_def newConfig_def caller_assigned_logger debug_config_def)
qed

lemma GetConfig_copy_isolated:
  assumes "config (loggers s l) = Some c" and "c < nextConfig s"
  shows "case GetConfig l s of
           Inl p \<Rightarrow> False
         | Inr (g, s1) \<Rightarrow>
             (case GetConfig l (store g f s1) of
                Inl p \<Rightarrow> False
              | Inr (g', s2) \<Rightarrow> configs s2 g' = configs s1 g)"
proof -
  from assms(2) have "c \<noteq> nextConfig s"
    by simp
  then show ?thesis
    using assms(1) by (simp add: GetConfig_def newConfig_def store_simps)
qed

lemma store_keeps_pipeline:
  "logger (loggers (store c f s) l) = logger (loggers s l)"
  "level (loggers (store c f s) l) = level (loggers s l)"
  "sink_writes (store c f s) (zap_log lvl l m flds (store c f s)) =
     sink_writes s (zap_log lvl l m flds s)"
  by (simp_all add: store_simps zap_log_def sink_writes_def Let_def split: option.splits)

lemma New_nil_private:
  assumes "defaultConfig < nextConfig s"
  shows "case New env None s of
           Inl p \<Rightarrow> False
         | Inr (l', s') \<Rightarrow>
             (case config (loggers s' l') of
                None \<Rightarrow> False
              | Some c' \<Rightarrow>
                  c' \<noteq> defaultConfig \<and> configs s' c' = configs s defaultConfig \<and>
                  configs s' defaultConfig = configs s defaultConfig)"
proof -
  from assms have "defaultConfig \<noteq> nextConfig s"
    by simp
  then show ?thesis
    by (simp add: New_returns New_state_None New_Some_state built_def fill_configs filled_same
        newConfig_def)
qed

lemma New_record_shared:
  "case New env (Some c) s of
     Inl p \<Rightarrow> False
   | Inr (l', s') \<Rightarrow>
       config (loggers s' l') = Some c \<and>
       (case GetConfig l' (store c f s') of
          Inl p \<Rightarrow> False
        | Inr (g, s2) \<Rightarrow> configs s2 g = f (configs s' c))"
  by (simp add: New_Some_returns New_Some_state built_def GetConfig_def newConfig_def store_simps)

text \<open>
  Claim C7, amended. For a logger that \<^verbatim>\<open>New\<close> built (from nil or from a record the caller
  had allocated), at any later time, a record returned by \<^verbatim>\<open>GetConfig\<close> is a fresh copy:
  assigning to it does not change what the next \<^verbatim>\<open>GetConfig\<close> reads. An assignment
  through any \<^verbatim>\<open>*Config\<close>, the caller's record included, never changes the emitting
  pipeline: the installed zap logger with its sinks and zone, the gate level, and what
  each of the nine logging methods hands to the sinks stay as they were. It does change
  what \<^verbatim>\<open>GetConfig\<close> reads: \<^verbatim>\<open>New(c)\<close> for a non-nil \<open>c\<close> keeps \<open>c\<close> itself as the logger's
  configuration record. \<^verbatim>\<open>New(nil)\<close>, in every state reachable through the package, keeps
  a fresh record holding the default record's values and leaves the default record as
  it was.
\<close>

theorem config_isolation_amended:
  "(built_by_New l s \<longrightarrow>
      (case GetConfig l s of
         Inl p \<Rightarrow> False
       | Inr (g, s1) \<Rightarrow>
           (case GetConfig l (store g f s1) of
              Inl p \<Rightarrow> False
            | Inr (g', s2) \<Rightarrow> configs s2 g' = configs s1 g))) \<and>
   logger (loggers (store c f s) l) = logger (loggers s l) \<and>
   level (loggers (store c f s) l) = level (loggers s l) \<and>
   sink_writes (store c f s) (Debug fmt l ctx m flds (store c f s)) =
     sink_writes s (Debug fmt l ctx m flds s) \<and>
   sink_writes (store c f s) (Info fmt l ctx m flds (store c f s)) =
     sink_writes s (Info fmt l ctx m flds s) \<and>
   sink_writes (store c f s) (Warn fmt l ctx m flds (store c f s)) =
     sink_writes s (Warn fmt l ctx m flds s) \<and>
   sink_writes (store c f s) (Error fmt l ctx m flds (store c f s)) =
     sink_writes s (Error fmt l ctx m flds s) \<and>
   sink_writes (store c f s) (Fatal fmt l ctx m flds (store c f s)) =
     sink_writes s (Fatal fmt l ctx m flds s) \<and>
   sink_writes (store c f s) (Debugf fmt l ctx m args (store c f s)) =
     sink_writes s (Debugf fmt l ctx m args s) \<and>
   sink_writes (store c f s) (Infof fmt l ctx m args (store c f s)) =
     sink_writes s (Infof fmt l ctx m args s) \<and>
   sink_writes (store c f s) (Warnf fmt l ctx m args (store c f s)) =
     sink_writes s (Warnf fmt l ctx m args s) \<and>
   sink_writes (store c f s) (Errorf fmt l ctx m args (store c f s)) =
     sink_writes s (Errorf fmt l ctx m args s) \<and>
   (reachable s \<longrightarrow>
      (case New env None s of
         Inl p \<Rightarrow> False
       | Inr (l', s') \<Rightarrow>
           (case config (loggers s' l') of
              None \<Rightarrow> False
            | Some c' \<Rightarrow>
                c' \<noteq> defaultConfig \<and> configs s' c' = configs s defaultConfig \<and>
                configs s' defaultConfig = configs s defaultConfig))) \<and>
   (case New env (Some c) s of
      Inl p \<Rightarrow> False
    | Inr (l', s') \<Rightarrow>
        config (loggers s' l') = Some c \<and>
        (case GetConfig l' (store c f s') of
           Inl p \<Rightarrow> False
         | Inr (g, s2) \<Rightarrow> configs s2 g = f (configs s' c)))"
proof -
  have 1: "case GetConfig l s of
         Inl p \<Rightarrow> False
       | Inr (g, s1) \<Rightarrow>
           (case GetConfig l (store g f s1) of
              Inl p \<Rightarrow> False
            | Inr (g', s2) \<Rightarrow> configs s2 g' = configs s1 g)"
    if b: "built_by_New l s"
  proof -
    from b obtain a where "config (loggers s l) = Some a" and "a < nextConfig s"
      by (rule built_by_New_config)
    then show ?thesis
      by (rule GetConfig_copy_isolated)
  qed
  have 2: "case New env None s of
         Inl p \<Rightarrow> False
       | Inr (l', s') \<Rightarrow>
           (case config (loggers s' l') of
              None \<Rightarrow> False
            | Some c' \<Rightarrow>
                c' \<noteq> defaultConfig \<and> configs s' c' = configs s defaultConfig \<and>
                configs s' defaultConfig = configs s defaultConfig)"
    if r: "reachable s"
  proof -
    from reachable_intact [OF r] have "defaultConfig < nextConfig s"
      by (simp add: default_intact_def)
    then show ?thesis
      by (rule New_nil_private)
  qed
  show ?thesis
    unfolding Debug_def Info_def Warn_def Error_def Fatal_def Debugf_def Infof_def Warnf_def
      Errorf_def
    using 1 2 New_record_shared [where env = env and c = c and s = s and f = f]
    by (simp add: store_keeps_pipeline)
qed

theorem config_isolation_amended_witness:
  "built_by_New 0 constructed \<and> reachable start \<and>
   (case GetConfig 0 constructed of
      Inl p \<Rightarrow> False
    | Inr (g, s1) \<Rightarrow>
        (case GetConfig 0 (store g (\<lambda>x. x\<lparr>Level := ''error''\<rparr>) s1) of
           Inl p \<Rightarrow> False
         | Inr (g', s2) \<Rightarrow> Level (configs s2 g') = ''debug'')) \<and>
   level (loggers caller_assigned 0) = DebugLevel \<and>
   sink_writes caller_assigned (Debug example_fmt 0 None ''d'' [] caller_assigned) =
     sink_writes constructed (Debug example_fmt 0 None ''d'' [] constructed) \<and>
   (case New example_env None start of
      Inl p \<Rightarrow> False
    | Inr (l', s') \<Rightarrow>
        config (loggers s' l') = Some 1 \<and> configs s' 1 = defaultConfig_literal \<and>
        configs s' defaultConfig = defaultConfig_literal) \<and>
   (case New example_env (Some 1) (snd (newConfig debug_config start)) of
      Inl p \<Rightarrow> False
    | Inr (l', s') \<Rightarrow>
        config (loggers s' l') = Some 1 \<and>
        (case GetConfig l' (store 1 (\<lambda>x. x\<lparr>Level := ''error''\<rparr>) s') of
           Inl p \<Rightarrow> False
         | Inr (g, s2) \<Rightarrow> Level (configs s2 g) = ''error''))"
  using constructed_built r_start
    config_isolation_amended [where l = 0 and s = constructed and c = 1
      and f = "\<lambda>x. x\<lparr>Level := ''error''\<rparr>" and env = example_env and fmt = example_fmt
      and ctx = None and m = "''d''" and flds = "[]" and args = "[]"]
    config_isolation_amended [where l = 0 and s = start and c = 1
      and f = "\<lambda>x. x\<lparr>Level := ''error''\<rparr>" and env = example_env and fmt = example_fmt
      and ctx = None and m = "''d''" and flds = "[]" and args = "[]"]
    config_isolation_amended [where l = 0 and s = "snd (newConfig debug_config start)" and c = 1
      and f = "\<lambda>x. x\<lparr>Level := ''error''\<rparr>" and env = example_env and fmt = example_fmt
      and ctx = None and m = "''d''" and flds = "[]" and args = "[]"]
  by (simp add: caller_assigned_def GetConfig_def store_simps constructed_logger
      New_returns New_state_None New_Some_returns New_Some_state built_def fill_configs start_def
      defaultConfig_def filled_def defaultConfig_literal_def debug_config_def newConfig_def)

text \<open>
  The global instance is constructed from the \<^verbatim>\<open>defaultConfig\<close> pointer itself, so its
  \<^verbatim>\<open>SetLevel\<close> writes the \<^verbatim>\<open>Level\<close> field of the default record.
\<close>

lemma Default_shares_defaultConfig:
  "Default example_env start =
     Inr (Some 0, (New_state example_env (Some defaultConfig) start)
                    \<lparr>globalLogger := Some 0, once := True\<rparr>)"
  "config (loggers (New_state example_env (Some defaultConfig) start) 0) = Some defaultConfig"
  "Level (configs (New_state example_env (Some defaultConfig) start) defaultConfig) = ''info''"
  "Level (configs (snd (SetLevel example_env 0 ''debug''
       ((New_state example_env (Some defaultConfig) start)
          \<lparr>globalLogger := Some 0, once := True\<rparr>))) defaultConfig) = ''debug''"
  by (simp_all add: Default_def New_Some_returns New_Some_state built_def fill_configs
      start_def defaultConfig_def filled_def defaultConfig_literal_def SetLevel_def Let_def
      UnmarshalText_names store_simps)

subsection \<open>Compression\<close>

lemma New_config_value:
  assumes "New env config0 s = Inr (l, s1)" and "config (loggers s1 l) = Some a"
  shows "configs s1 a =
     (case config0 of
        None \<Rightarrow> filled (configs s defaultConfig) (configs s defaultConfig)
      | Some c \<Rightarrow> filled (configs s c) (configs s defaultConfig))"
proof (cases config0)
  case None
  with New_config_addr [OF assms(1)] assms(2) have a: "a = nextConfig s"
    by simp
  from None New_result_eq(2) [OF assms(1)] show ?thesis
    unfolding a by (simp add: New_state_None New_Some_state fill_configs newConfig_def)
next
  case (Some c)
  with New_config_addr [OF assms(1)] assms(2) have a: "a = c"
    by simp
  from Some New_result_eq(2) [OF assms(1)] show ?thesis
    unfolding a by (simp add: New_Some_state fill_configs)
qed

text \<open>
  Claim C8. In every reachable state the configuration of a logger that \<^verbatim>\<open>New\<close>
  returns has \<^verbatim>\<open>Compress\<close> true, whatever the argument. When the caller's record has
  \<^verbatim>\<open>Compress\<close> false, the filling step replaces it by the default record's value,
  which is the declared \<^verbatim>\<open>true\<close>, and the rotating file sink is created with
  compression on.
\<close>

theorem Compress_cannot_be_disabled:
  assumes "reachable s"
  shows "(case New env config0 s of
            Inl p \<Rightarrow> False
          | Inr (l, s1) \<Rightarrow>
              (case GetConfig l s1 of
                 Inl p \<Rightarrow> False
               | Inr (g, s2) \<Rightarrow> Compress (configs s2 g))) \<and>
         (\<not> Compress (configs s c) \<longrightarrow>
            (case New env (Some c) s of
               Inl p \<Rightarrow> False
             | Inr (l, s1) \<Rightarrow>
                 (case GetConfig l s1 of
                    Inl p \<Rightarrow> False
                  | Inr (g, s2) \<Rightarrow>
                      Compress (configs s2 g) = Compress (configs s defaultConfig) \<and>
                      Compress (configs s2 g) = Compress defaultConfig_literal \<and>
                      (\<exists>f. logger (loggers s1 l) =
                         Some \<lparr>enc = f,
                               out = [Stdout, Lumberjack (FileName (configs s2 g)) (MaxSize (configs s2 g))
                                        (MaxAge (configs s2 g)) (MaxBackups (configs s2 g)) True],
                               enab = SharedLevel\<rparr>))))"
proof -
  have d: "Compress (configs s defaultConfig)"
    using reachable_intact [OF assms] by (simp add: default_intact_def defaultConfig_literal_def)
  have 1: "case New env config0 s of
            Inl p \<Rightarrow> False
          | Inr (l, s1) \<Rightarrow>
              (case GetConfig l s1 of
                 Inl p \<Rightarrow> False
               | Inr (g, s2) \<Rightarrow> Compress (configs s2 g))"
  proof -
    obtain l s1 where n: "New env config0 s = Inr (l, s1)"
      using New_returns by blast
    obtain a where a: "config (loggers s1 l) = Some a"
      using New_config_addr [OF n] by blast
    obtain g s2 where g: "GetConfig l s1 = Inr (g, s2)"
      using GetConfig_Some [OF a] by blast
    have "Compress (configs s1 a)"
      using New_config_value [OF n a] d by (cases config0) (simp_all add: filled_def)
    then show ?thesis
      using GetConfig_reads [OF g] a by (auto simp: n g)
  qed
  have 2: "case New env (Some c) s of
               Inl p \<Rightarrow> False
             | Inr (l, s1) \<Rightarrow>
                 (case GetConfig l s1 of
                    Inl p \<Rightarrow> False
                  | Inr (g, s2) \<Rightarrow>
                      Compress (configs s2 g) = Compress (configs s defaultConfig) \<and>
                      Compress (configs s2 g) = Compress defaultConfig_literal \<and>
                      (\<exists>f. logger (loggers s1 l) =
                         Some \<lparr>enc = f,
                               out = [Stdout, Lumberjack (FileName (configs s2 g)) (MaxSize (configs s2 g))
                                        (MaxAge (configs s2 g)) (MaxBackups (configs s2 g)) True],
                               enab = SharedLevel\<rparr>))"
    if c: "\<not> Compress (configs s c)"
  proof -
    obtain l s1 where n: "New env (Some c) s = Inr (l, s1)"
      using New_returns by blast
    have a: "config (loggers s1 l) = Some c"
      by (rule New_Some_config(1) [OF n])
    obtain g s2 where g: "GetConfig l s1 = Inr (g, s2)"
      using GetConfig_Some [OF a] by blast
    have v: "configs s2 g = configs s1 c"
      using GetConfig_reads [OF g] a by auto
    have f: "configs s1 c = filled (configs s c) (configs s defaultConfig)"
      by (rule New_Some_config(2) [OF n])
    have t: "Compress (configs s2 g)"
      using v f d by (simp add: filled_def)
    have "logger (loggers s1 l) = logger (built env (configs s2 g) c)"
      using New_result [OF n a] v by simp
    with t have "\<exists>f. logger (loggers s1 l) =
                     Some \<lparr>enc = f,
                           out = [Stdout, Lumberjack (FileName (configs s2 g)) (MaxSize (configs s2 g))
                                    (MaxAge (configs s2 g)) (MaxBackups (configs s2 g)) True],
                           enab = SharedLevel\<rparr>"
      by (simp add: built_def)
    with t d show ?thesis
      by (simp add: n g defaultConfig_literal_def)
  qed
  show ?thesis
  proof (intro conjI impI)
    show "case New env config0 s of
            Inl p \<Rightarrow> False
          | Inr (l, s1) \<Rightarrow>
              (case GetConfig l s1 of
                 Inl p \<Rightarrow> False
               | Inr (g, s2) \<Rightarrow> Compress (configs s2 g))"
      by (rule 1)
  next
    assume "\<not> Compress (configs s c)"
    then show "case New env (Some c) s of
               Inl p \<Rightarrow> False
             | Inr (l, s1) \<Rightarrow>
                 (case GetConfig l s1 of
                    Inl p \<Rightarrow> False
                  | Inr (g, s2) \<Rightarrow>
                      Compress (configs s2 g) = Compress (configs s defaultConfig) \<and>
                      Compress (configs s2 g) = Compress defaultConfig_literal \<and>
                      (\<exists>f. logger (loggers s1 l) =
                         Some \<lparr>enc = f,
                               out = [Stdout, Lumberjack (FileName (configs s2 g)) (MaxSize (configs s2 g))
                                        (MaxAge (configs s2 g)) (MaxBackups (configs s2 g)) True],
                               enab = SharedLevel\<rparr>))"
      by (rule 2)
  qed
qed

theorem Compress_cannot_be_disabled_witness:
  "reachable (snd (newConfig partial_config start)) \<and>
   \<not> Compress (configs (snd (newConfig partial_config start)) 1) \<and>
   (case New example_env (Some 1) (snd (newConfig partial_config start)) of
      Inl p \<Rightarrow> False
    | Inr (l, s1) \<Rightarrow>
        (case GetConfig l s1 of
           Inl p \<Rightarrow> False
         | Inr (g, s2) \<Rightarrow> Compress (configs s2 g)))"
proof -
  have r: "reachable (snd (newConfig partial_config start))"
    by (intro r_alloc r_start)
  have c: "\<not> Compress (configs (snd (newConfig partial_config start)) 1)"
    by (simp add: newConfig_def start_def partial_config_def)
  show ?thesis
    using r c Compress_cannot_be_disabled [OF r, where c = 1 and env = example_env
        and ?config0.0 = "Some 1"]
    by simp
qed

end
